theory Spec2Isabelle
  imports Main "HOL-Library.AList" "HOL-Library.Word"
begin

section \<open>Data model\<close>

type_synonym userId = string
type_synonym handle = string
type_synonym timestamp = int

text \<open>
  A JavaScript string is a sequence of 16-bit code units. \<open>ascii\<close> writes one from its
  ASCII characters. Identifiers and log or error messages, which are ASCII, stay \<open>string\<close>s.
\<close>

type_synonym jschar = "16 word"
type_synonym jsstring = "jschar list"

definition ascii :: "string \<Rightarrow> jsstring" where
  "ascii s = map of_char s"

subsection \<open>Presence registry (lib/socket.js)\<close>

text \<open>
  \<^verbatim>\<open>const userSocketMap = {}\<close> is a JavaScript object keyed by user id. It is modelled as
  an association list in insertion order, which is the order \<^verbatim>\<open>Object.keys\<close> reports for
  keys that are not array indices (the 24-digit hexadecimal ids are not): assigning to an
  existing key keeps its position, assigning to a new key appends it, \<^verbatim>\<open>delete\<close> removes
  it. Socket ids are non-empty strings.
\<close>

type_synonym registry = "(userId \<times> handle) list"

record socket =
  socket_userId :: userId
  socket_id :: handle

text \<open>\<^verbatim>\<open>return userSocketMap[userId]\<close>; \<open>None\<close> is \<^verbatim>\<open>undefined\<close>.\<close>

definition getReceiverSocketId :: "registry \<Rightarrow> userId \<Rightarrow> handle option" where
  "getReceiverSocketId userSocketMap userId = map_of userSocketMap userId"

text \<open>
  The body of \<^verbatim>\<open>io.on("connection", ...)\<close>: \<^verbatim>\<open>userSocketMap[userId] = socket.id\<close>, then
  the broadcast of \<^verbatim>\<open>Object.keys(userSocketMap)\<close>. The result is the new registry and the
  broadcast payload.
\<close>

definition on_connection :: "socket \<Rightarrow> registry \<Rightarrow> registry \<times> userId list" where
  "on_connection socket userSocketMap =
     (let m = AList.update (socket_userId socket) (socket_id socket) userSocketMap
      in (m, map fst m))"

text \<open>
  The body of \<^verbatim>\<open>socket.on("disconnect", ...)\<close>: \<^verbatim>\<open>delete userSocketMap[userId]\<close> with the
  \<^verbatim>\<open>userId\<close> captured at connection time, then the broadcast. The handler reads
  \<^verbatim>\<open>socket.id\<close> only for the log line.
\<close>

definition on_disconnect :: "socket \<Rightarrow> registry \<Rightarrow> registry \<times> userId list" where
  "on_disconnect socket userSocketMap =
     (let m = AList.delete (socket_userId socket) userSocketMap
      in (m, map fst m))"

datatype event = Connection socket | Disconnect socket

fun handle_event :: "registry \<Rightarrow> event \<Rightarrow> registry" where
  "handle_event m (Connection s) = fst (on_connection s m)"
| "handle_event m (Disconnect s) = fst (on_disconnect s m)"

definition run_events :: "event list \<Rightarrow> registry \<Rightarrow> registry" where
  "run_events evs m = foldl handle_event m evs"

subsection \<open>Messages and the conversation query (models/Message.js, services/message.service.js)\<close>

type_synonym messageId = string

text \<open>
  A stored message: \<^verbatim>\<open>_id\<close>, the two participants (each ObjectId as the string that
  \<^verbatim>\<open>toString\<close> gives for it), the text (trimmed by the schema), the
  image reference and the \<^verbatim>\<open>createdAt\<close> timestamp, in milliseconds since the epoch (the
  precision of a stored date and of \<^verbatim>\<open>toISOString\<close>). The collection is the list of its
  documents in insertion order.
\<close>

record message =
  msg_id :: messageId
  senderId :: userId
  receiverId :: userId
  msg_text :: jsstring
  msg_image :: jsstring
  createdAt :: timestamp

text \<open>\<^verbatim>\<open>config.pagination\<close>\<close>

definition defaultLimit :: int where
  "defaultLimit = 50"

definition maxLimit :: int where
  "maxLimit = 100"

text \<open>
  The options of \<^verbatim>\<open>getMessagesBetweenUsers\<close>. \<open>opt_limit\<close> is the value of
  \<^verbatim>\<open>parseInt(options.limit)\<close>, with \<open>None\<close> for \<^verbatim>\<open>NaN\<close> (a missing or unparseable limit).
  \<open>opt_before\<close> is the cursor as the timestamp that \<^verbatim>\<open>new Date(before)\<close> reads from it,
  with \<open>None\<close> for an absent (falsy) cursor.
\<close>

record options =
  opt_limit :: "int option"
  opt_before :: "timestamp option"

record page =
  page_messages :: "message list"
  hasMore :: bool
  nextCursor :: "timestamp option"

text \<open>
  \<^verbatim>\<open>let limit = parseInt(options.limit) || config.pagination.defaultLimit;\<close>
  \<^verbatim>\<open>if (limit > config.pagination.maxLimit) limit = config.pagination.maxLimit;\<close>
  Both \<^verbatim>\<open>NaN\<close> and \<open>0\<close> are falsy.
\<close>

definition parse_limit :: "int option \<Rightarrow> int" where
  "parse_limit parsed =
     (let limit = (case parsed of None \<Rightarrow> defaultLimit
                   | Some n \<Rightarrow> if n = 0 then defaultLimit else n)
      in if limit > maxLimit then maxLimit else limit)"

text \<open>
  The \<^verbatim>\<open>$or\<close> of the query, and the cursor condition \<^verbatim>\<open>createdAt: { $lt: new Date(before) }\<close>
  that is added when a cursor is given.
\<close>

definition conversation_query :: "userId \<Rightarrow> userId \<Rightarrow> message \<Rightarrow> bool" where
  "conversation_query userId1 userId2 m \<longleftrightarrow>
     (senderId m = userId1 \<and> receiverId m = userId2)
     \<or> (senderId m = userId2 \<and> receiverId m = userId1)"

definition cursor_condition :: "timestamp option \<Rightarrow> message \<Rightarrow> bool" where
  "cursor_condition before m \<longleftrightarrow> (case before of None \<Rightarrow> True | Some c \<Rightarrow> createdAt m < c)"

text \<open>
  \<^verbatim>\<open>.sort({ createdAt: -1 })\<close>: most recent first. Documents with equal timestamps are kept
  in collection order.
\<close>

definition sort_createdAt_desc :: "message list \<Rightarrow> message list" where
  "sort_createdAt_desc ms = sort_key (\<lambda>m. - createdAt m) ms"

text \<open>
  \<^verbatim>\<open>.limit(n)\<close> of the database driver: a positive \<open>n\<close> bounds the number of documents,
  \<open>0\<close> means no bound, and a negative \<open>n\<close> is a bound of \<open>- n\<close> documents (returned in
  a single batch).
\<close>

definition mongo_limit :: "int \<Rightarrow> 'a list \<Rightarrow> 'a list" where
  "mongo_limit n xs = (if n = 0 then xs else take (nat \<bar>n\<bar>) xs)"

text \<open>
  \<^verbatim>\<open>getMessagesBetweenUsers(userId1, userId2, options)\<close> over the message collection \<open>db\<close>.
  \<^verbatim>\<open>messages.pop()\<close> is \<open>butlast\<close> (and leaves an empty array empty);
  \<^verbatim>\<open>messages[messages.length - 1]\<close> is read only when the array is not empty.
\<close>

definition getMessagesBetweenUsers :: "message list \<Rightarrow> userId \<Rightarrow> userId \<Rightarrow> options \<Rightarrow> page" where
  "getMessagesBetweenUsers db userId1 userId2 opts =
     (let limit = parse_limit (opt_limit opts);
          before = opt_before opts;
          query = (\<lambda>m. conversation_query userId1 userId2 m \<and> cursor_condition before m);
          found = mongo_limit (limit + 1) (sort_createdAt_desc (filter query db));
          more = (int (length found) > limit);
          messages = (if more then butlast found else found);
          cursor = (if more \<and> length messages > 0 then Some (createdAt (last messages)) else None)
      in \<lparr>page_messages = rev messages, hasMore = more, nextCursor = cursor\<rparr>)"

text \<open>
  A client paging through a conversation: one call per element of \<open>limits\<close> (the parsed
  limit of that call), each call after the first passing the previous page's
  \<open>nextCursor\<close> as \<open>before\<close>. The sequence ends when a page has no \<open>nextCursor\<close>.
\<close>

fun page_sequence ::
  "message list \<Rightarrow> userId \<Rightarrow> userId \<Rightarrow> timestamp option \<Rightarrow> int option list \<Rightarrow> page list" where
  "page_sequence db a b before [] = []"
| "page_sequence db a b before (l # ls) =
     (let r = getMessagesBetweenUsers db a b \<lparr>opt_limit = l, opt_before = before\<rparr>
      in r # (case nextCursor r of None \<Rightarrow> []
              | Some c \<Rightarrow> page_sequence db a b (Some c) ls))"

subsection \<open>Users (models/User.js)\<close>

text \<open>A user document. \<open>profilePic\<close> is \<open>None\<close> when the field is missing or null.\<close>

record user =
  user_id :: userId
  email :: string
  fullName :: string
  password :: string
  profilePic :: "string option"

subsection \<open>Sending a message (services/message.service.js)\<close>

text \<open>
  The errors a call can end with: the two \<^verbatim>\<open>ApiError\<close> classes the service throws, each
  with its message, and the two errors of the database library, each with the path it
  names: the cast error of a query and the validation error of \<^verbatim>\<open>Message.create\<close>.
\<close>

datatype error = BadRequestError string | NotFoundError string | CastError string | ValidationError string

text \<open>
  The \<^verbatim>\<open>content\<close> argument: each field is a string or \<^verbatim>\<open>undefined\<close> (\<open>None\<close>).
  A value is truthy when it is a non-empty string; \<^verbatim>\<open>v || ""\<close> is the string itself, or
  the empty string.
\<close>

record content =
  content_text :: "jsstring option"
  content_image :: "jsstring option"

definition truthy :: "'a list option \<Rightarrow> bool" where
  "truthy v = (case v of None \<Rightarrow> False | Some s \<Rightarrow> s \<noteq> [])"

definition or_empty :: "'a list option \<Rightarrow> 'a list" where
  "or_empty v = (case v of None \<Rightarrow> [] | Some s \<Rightarrow> s)"

text \<open>
  \<^verbatim>\<open>String.prototype.trim\<close> strips the white space and line terminators of the
  language from both ends: tab, line feed, vertical tab, form feed, carriage return,
  space, no-break space, the Unicode space separators (U+1680, U+2000 to U+200A, U+202F,
  U+205F, U+3000), the line and paragraph separators (U+2028, U+2029) and the byte order
  mark (U+FEFF). The \<^verbatim>\<open>trim\<close> sanitizer of the validation library strips the same
  characters (the white-space class of regular expressions).
\<close>

definition is_space :: "jschar \<Rightarrow> bool" where
  "is_space c \<longleftrightarrow> c \<in> set [0x0009, 0x000A, 0x000B, 0x000C, 0x000D, 0x0020, 0x00A0, 0x1680,
      0x2000, 0x2001, 0x2002, 0x2003, 0x2004, 0x2005, 0x2006, 0x2007, 0x2008, 0x2009, 0x200A,
      0x2028, 0x2029, 0x202F, 0x205F, 0x3000, 0xFEFF]"

definition trim :: "jsstring \<Rightarrow> jsstring" where
  "trim s = rev (dropWhile is_space (rev (dropWhile is_space s)))"

text \<open>
  The cast of a string to an ObjectId, as the database library does it for a query value
  and for a document field: the string must be 24 hexadecimal digits, in either case, and
  the ObjectId prints in lower case. \<open>None\<close> is a failed cast. (Older versions of the
  library also accept any string of 12 characters; such ids are not modelled.)
\<close>

definition is_hex :: "char \<Rightarrow> bool" where
  "is_hex c \<longleftrightarrow> c \<in> set ''0123456789abcdefABCDEF''"

definition lower_hex :: "char \<Rightarrow> char" where
  "lower_hex c = (case map_of (zip ''ABCDEF'' ''abcdef'') c of None \<Rightarrow> c | Some l \<Rightarrow> l)"

definition castObjectId :: "string \<Rightarrow> userId option" where
  "castObjectId s = (if length s = 24 \<and> list_all is_hex s then Some (map lower_hex s) else None)"

text \<open>
  \<^verbatim>\<open>Message.create({ senderId, receiverId, text, image })\<close> under the schema: both ids are
  cast to ObjectIds, the text is trimmed (\<^verbatim>\<open>trim: true\<close>) and then checked against
  \<^verbatim>\<open>maxlength: 2000\<close>; a failed cast or check is a validation error and nothing is
  written. The document gets its \<^verbatim>\<open>_id\<close> and, from \<^verbatim>\<open>timestamps: true\<close>, its
  \<^verbatim>\<open>createdAt\<close>. The fresh id and the clock are parameters. The result is the outcome and
  the collection after the call.
\<close>

definition Message_create ::
  "message list \<Rightarrow> messageId \<Rightarrow> timestamp \<Rightarrow> string \<Rightarrow> string \<Rightarrow> jsstring \<Rightarrow> jsstring
     \<Rightarrow> (error + message) \<times> message list" where
  "Message_create db newId now sender receiver txt img =
     (case castObjectId sender of
        None \<Rightarrow> (Inl (ValidationError ''senderId''), db)
      | Some sid \<Rightarrow>
          (case castObjectId receiver of
             None \<Rightarrow> (Inl (ValidationError ''receiverId''), db)
           | Some rid \<Rightarrow>
               (let t = trim txt
                in if length t > 2000
                   then (Inl (ValidationError ''text''), db)
                   else (let m = \<lparr>msg_id = newId, senderId = sid, receiverId = rid,
                                   msg_text = t, msg_image = img, createdAt = now\<rparr>
                         in (Inr m, db @ [m])))))"

text \<open>
  \<^verbatim>\<open>sendMessage(senderId, receiverId, content)\<close> over the user collection and the message
  collection, in the order of the source: the content check; the receiver lookup
  \<^verbatim>\<open>User.findById(receiverId)\<close>, which casts the id and compares ObjectIds; the self-send
  check \<^verbatim>\<open>senderId.toString() === receiverId.toString()\<close>, which compares the two ids
  as the strings given; the creation. \<open>sender\<close> and \<open>receiver\<close> are those strings.
\<close>

definition sendMessage ::
  "user list \<Rightarrow> message list \<Rightarrow> messageId \<Rightarrow> timestamp \<Rightarrow> string \<Rightarrow> string \<Rightarrow> content
     \<Rightarrow> (error + message) \<times> message list" where
  "sendMessage users db newId now sender receiver cnt =
     (let txt = content_text cnt; img = content_image cnt
      in if \<not> truthy txt \<and> \<not> truthy img
         then (Inl (BadRequestError ''Message must contain text or image''), db)
         else (case castObjectId receiver of
                 None \<Rightarrow> (Inl (CastError ''_id''), db)
               | Some rid \<Rightarrow>
                   if find (\<lambda>u. user_id u = rid) users = None
                   then (Inl (NotFoundError ''Receiver not found''), db)
                   else if sender = receiver
                   then (Inl (BadRequestError ''Cannot send messages to yourself''), db)
                   else Message_create db newId now sender receiver (or_empty txt) (or_empty img)))"

subsection \<open>The send controller (controllers/message.controller.js)\<close>

text \<open>
  The request: \<^verbatim>\<open>req.body.text\<close>, \<^verbatim>\<open>req.body.image\<close>, \<^verbatim>\<open>req.params.id\<close> as sent, and
  \<^verbatim>\<open>req.user._id\<close> as the string \<^verbatim>\<open>toString\<close> gives for it.
\<close>

record send_request =
  req_text :: "jsstring option"
  req_image :: "jsstring option"
  req_receiverId :: string
  req_senderId :: string

text \<open>
  What the handler ends with: a JSON response it sends itself (a status and either a
  message text or the created message), or an error handed to the error middleware by
  \<^verbatim>\<open>asyncHandler\<close>.
\<close>

datatype body = BodyText string | BodyMessage message

datatype reply = Json nat body | Next error

text \<open>
  The collaborators of the handler: the image upload (\<open>Inl\<close> when it throws, \<open>Inr\<close> the
  \<^verbatim>\<open>secure_url\<close>), the emission of \<^verbatim>\<open>newMessage\<close> to a socket (\<open>Some\<close> the error message
  when it throws), and the id generator and clock of the database.
\<close>

record environment =
  env_upload :: "jsstring \<Rightarrow> string + jsstring"
  env_emit :: "handle \<Rightarrow> message \<Rightarrow> string option"
  env_newId :: messageId
  env_now :: timestamp

text \<open>
  The observable result of one request: the reply, the message collection afterwards,
  the \<^verbatim>\<open>newMessage\<close> events emitted (socket id and payload), and the warnings logged.
\<close>

record outcome =
  out_reply :: reply
  out_db :: "message list"
  out_pushed :: "(handle \<times> message) list"
  out_warnings :: "(string \<times> string) list"

definition starts_with :: "'a list \<Rightarrow> 'a list \<Rightarrow> bool" where
  "starts_with p s \<longleftrightarrow> take (length p) s = p"

text \<open>\<^verbatim>\<open>/^data:image\/(jpeg|jpg|png|gif|webp);base64,/.test(image)\<close>\<close>

definition base64Regex_test :: "jsstring \<Rightarrow> bool" where
  "base64Regex_test img \<longleftrightarrow>
     (\<exists>p \<in> set [''data:image/jpeg;base64,'', ''data:image/jpg;base64,'', ''data:image/png;base64,'',
                 ''data:image/gif;base64,'', ''data:image/webp;base64,'']. starts_with (ascii p) img)"

text \<open>
  The image part of the handler: no image gives the empty URL; otherwise the format
  check, the size check (\<^verbatim>\<open>image.length * 3 / 4 > 5 * 1024 * 1024\<close>, here without the
  division) and the upload. \<open>Inl\<close> is the response of an early return.
\<close>

definition handle_image :: "environment \<Rightarrow> jsstring option \<Rightarrow> reply + jsstring" where
  "handle_image env img =
     (if \<not> truthy img then Inr []
      else if \<not> base64Regex_test (or_empty img)
      then Inl (Json 400 (BodyText ''Invalid image format. Expected base64-encoded image.''))
      else if length (or_empty img) * 3 > 4 * (5 * 1024 * 1024)
      then Inl (Json 400 (BodyText ''Image size exceeds 5MB limit.''))
      else (case env_upload env (or_empty img) of
              Inl e \<Rightarrow> Inl (Json 500 (BodyText ''Failed to upload image.''))
            | Inr url \<Rightarrow> Inr url))"

text \<open>
  The \<^verbatim>\<open>try\<close> block around the emission: the lookup of the receiver's socket id, the
  emission when the id is truthy, and the \<^verbatim>\<open>catch\<close> that logs a warning. The result is
  the events emitted and the warnings logged.
\<close>

definition emit_newMessage ::
  "environment \<Rightarrow> registry \<Rightarrow> string \<Rightarrow> message \<Rightarrow> (handle \<times> message) list \<times> (string \<times> string) list" where
  "emit_newMessage env userSocketMap receiver m =
     (case getReceiverSocketId userSocketMap receiver of
        None \<Rightarrow> ([], [])
      | Some receiverSocketId \<Rightarrow>
          if receiverSocketId = [] then ([], [])
          else (case env_emit env receiverSocketId m of
                  None \<Rightarrow> ([(receiverSocketId, m)], [])
                | Some e \<Rightarrow> ([], [(''Socket.IO emit error'', e)])))"

definition sendMessage_controller ::
  "environment \<Rightarrow> user list \<Rightarrow> message list \<Rightarrow> registry \<Rightarrow> send_request \<Rightarrow> outcome" where
  "sendMessage_controller env users db userSocketMap req =
     (case handle_image env (req_image req) of
        Inl early \<Rightarrow> \<lparr>out_reply = early, out_db = db, out_pushed = [], out_warnings = []\<rparr>
      | Inr imageUrl \<Rightarrow>
          (case sendMessage users db (env_newId env) (env_now env) (req_senderId req) (req_receiverId req)
                  \<lparr>content_text = Some (or_empty (req_text req)), content_image = Some imageUrl\<rparr> of
             (Inl err, db') \<Rightarrow>
               \<lparr>out_reply = Next err, out_db = db', out_pushed = [], out_warnings = []\<rparr>
           | (Inr m, db') \<Rightarrow>
               (let (pushed, warnings) = emit_newMessage env userSocketMap (req_receiverId req) m
                in \<lparr>out_reply = Json 201 (BodyMessage m), out_db = db',
                    out_pushed = pushed, out_warnings = warnings\<rparr>)))"

subsection \<open>Chat partners (services/message.service.js)\<close>

text \<open>One element of the result of \<^verbatim>\<open>getChatPartners\<close>, as the final \<^verbatim>\<open>$project\<close> shapes it.\<close>

record partner =
  partner_id :: userId
  partner_email :: string
  partner_fullName :: string
  partner_profilePic :: string
  lastMessage :: message

text \<open>
  The \<^verbatim>\<open>$group\<close> stage with \<^verbatim>\<open>lastMessage: { $first: ... }\<close>: one group per partner id,
  holding the first document met for it. Groups are kept in order of first appearance.
\<close>

definition group_first :: "(userId \<times> message) list \<Rightarrow> userId \<times> message \<Rightarrow> (userId \<times> message) list" where
  "group_first groups d =
     (case map_of groups (fst d) of None \<Rightarrow> groups @ [d] | Some _ \<Rightarrow> groups)"

text \<open>
  \<^verbatim>\<open>$lookup\<close> in the user collection followed by \<^verbatim>\<open>$unwind: "$userInfo"\<close>: one output per
  matching user document, so a group without a matching user gives no output.
\<close>

definition lookup_unwind :: "user list \<Rightarrow> (userId \<times> message) list \<Rightarrow> (userId \<times> message \<times> user) list" where
  "lookup_unwind users groups =
     concat (map (\<lambda>(pid, lm). map (\<lambda>u. (pid, lm, u)) (filter (\<lambda>u. user_id u = pid) users)) groups)"

text \<open>The final \<^verbatim>\<open>$project\<close>, with the \<^verbatim>\<open>$ifNull\<close> fallback for the profile picture.\<close>

definition project_partner :: "userId \<times> message \<times> user \<Rightarrow> partner" where
  "project_partner d =
     (case d of (pid, lm, u) \<Rightarrow>
        \<lparr>partner_id = pid, partner_email = email u, partner_fullName = fullName u,
         partner_profilePic = (case profilePic u of None \<Rightarrow> ''https://avatar.iran.liara.run/public''
                               | Some pic \<Rightarrow> pic),
         lastMessage = lm\<rparr>)"

text \<open>
  \<^verbatim>\<open>getChatPartners(userId)\<close>: the aggregation pipeline, stage by stage: \<^verbatim>\<open>$match\<close>,
  \<^verbatim>\<open>$sort\<close>, \<^verbatim>\<open>$project\<close> of the partner id, \<^verbatim>\<open>$group\<close>, \<^verbatim>\<open>$lookup\<close> and \<^verbatim>\<open>$unwind\<close>, the
  final \<^verbatim>\<open>$project\<close>, and the \<^verbatim>\<open>$sort\<close> by the last message's \<^verbatim>\<open>createdAt\<close>, descending.
\<close>

definition getChatPartners :: "user list \<Rightarrow> message list \<Rightarrow> userId \<Rightarrow> partner list" where
  "getChatPartners users db userId =
     (let matched = filter (\<lambda>m. senderId m = userId \<or> receiverId m = userId) db;
          ordered = sort_createdAt_desc matched;
          projected = map (\<lambda>m. (if senderId m = userId then receiverId m else senderId m, m)) ordered;
          groups = foldl group_first [] projected;
          joined = lookup_unwind users groups;
          final = map project_partner joined
      in sort_key (\<lambda>p. - createdAt (lastMessage p)) final)"

subsection \<open>The send route and its validation (routes/message.route.js, validation middleware)\<close>

text \<open>
  \<^verbatim>\<open>validateSendMessage\<close>, run before the controller on \<^verbatim>\<open>POST /send/:id\<close>. The checks
  \<^verbatim>\<open>isMongoId\<close> and \<^verbatim>\<open>isLength({ max })\<close> of the validation library are parameters. A
  field that is falsy is left alone (\<^verbatim>\<open>optional({ checkFalsy: true })\<close>); a truthy text is
  replaced by its trimmed value and must pass the length check with the maximum 2000; a
  truthy image is replaced by its trimmed
  value and must match the image pattern; and, on the request so sanitised, the trimmed
  text or the trimmed image must be non-empty. \<^verbatim>\<open>handleValidationErrors\<close> answers 400 if
  any check failed, and otherwise passes the sanitised request on.
\<close>

definition sanitize_field :: "jsstring option \<Rightarrow> jsstring option" where
  "sanitize_field v = (if truthy v then Some (trim (or_empty v)) else v)"

record validators =
  isMongoId :: "string \<Rightarrow> bool"
  isLength_max :: "nat \<Rightarrow> jsstring \<Rightarrow> bool"

definition validateSendMessage :: "validators \<Rightarrow> send_request \<Rightarrow> reply + send_request" where
  "validateSendMessage lib req =
     (let id_ok = isMongoId lib (req_receiverId req);
          txt = sanitize_field (req_text req);
          text_ok = (truthy txt \<longrightarrow> isLength_max lib 2000 (or_empty txt));
          img = sanitize_field (req_image req);
          image_ok = (truthy img \<longrightarrow> base64Regex_test (or_empty img));
          hasText = (truthy txt \<and> length (trim (or_empty txt)) > 0);
          hasImage = (truthy img \<and> length (trim (or_empty img)) > 0);
          content_ok = (hasText \<or> hasImage)
      in if id_ok \<and> text_ok \<and> image_ok \<and> content_ok
         then Inr (req\<lparr>req_text := txt, req_image := img\<rparr>)
         else Inl (Json 400 (BodyText ''Validation failed'')))"

definition send_route ::
  "validators \<Rightarrow> environment \<Rightarrow> user list \<Rightarrow> message list \<Rightarrow> registry \<Rightarrow> send_request
     \<Rightarrow> outcome" where
  "send_route lib env users db userSocketMap req =
     (case validateSendMessage lib req of
        Inl rejected \<Rightarrow> \<lparr>out_reply = rejected, out_db = db, out_pushed = [], out_warnings = []\<rparr>
      | Inr req' \<Rightarrow> sendMessage_controller env users db userSocketMap req')"

subsection \<open>Example data\<close>

definition example_messages :: "message list" where
  "example_messages =
     [\<lparr>msg_id = ''m1'', senderId = ''a'', receiverId = ''b'', msg_text = ascii ''one'', msg_image = [], createdAt = 10\<rparr>,
      \<lparr>msg_id = ''m2'', senderId = ''b'', receiverId = ''a'', msg_text = ascii ''two'', msg_image = [], createdAt = 20\<rparr>,
      \<lparr>msg_id = ''m3'', senderId = ''a'', receiverId = ''c'', msg_text = ascii ''three'', msg_image = [], createdAt = 25\<rparr>,
      \<lparr>msg_id = ''m4'', senderId = ''a'', receiverId = ''b'', msg_text = ascii ''four'', msg_image = [], createdAt = 30\<rparr>,
      \<lparr>msg_id = ''m5'', senderId = ''b'', receiverId = ''a'', msg_text = ascii ''five'', msg_image = [], createdAt = 40\<rparr>]"

definition example_users :: "user list" where
  "example_users =
     [\<lparr>user_id = ''a'', email = ''a@x'', fullName = ''Ann'', password = ''pw'', profilePic = None\<rparr>,
      \<lparr>user_id = ''b'', email = ''b@x'', fullName = ''Bob'', password = ''pw'', profilePic = Some ''pic''\<rparr>,
      \<lparr>user_id = ''c'', email = ''c@x'', fullName = ''Cy'', password = ''pw'', profilePic = None\<rparr>]"

definition example_env :: environment where
  "example_env = \<lparr>env_upload = (\<lambda>img. Inr (ascii ''url'')), env_emit = (\<lambda>h m. None),
                   env_newId = ''m6'', env_now = 50\<rparr>"

definition failing_env :: environment where
  "failing_env = \<lparr>env_upload = (\<lambda>img. Inr (ascii ''url'')), env_emit = (\<lambda>h m. Some ''transport closed''),
                   env_newId = ''m6'', env_now = 50\<rparr>"


text \<open>Three accounts with ObjectIds, for the examples that send.\<close>

definition id_a :: userId where
  "id_a = ''64b0c0ffee00000000000a01''"

definition id_b :: userId where
  "id_b = ''64b0c0ffee00000000000b02''"

definition example_accounts :: "user list" where
  "example_accounts =
     [\<lparr>user_id = id_a, email = ''a@x'', fullName = ''Ann'', password = ''pw'', profilePic = None\<rparr>,
      \<lparr>user_id = id_b, email = ''b@x'', fullName = ''Bob'', password = ''pw'', profilePic = Some ''pic''\<rparr>]"

definition example_validators :: validators where
  "example_validators = \<lparr>isMongoId = (\<lambda>i. castObjectId i \<noteq> None),
                          isLength_max = (\<lambda>n s. length s \<le> n)\<rparr>"

section \<open>Presence registry: properties\<close>

lemma handle_event_distinct:
  "distinct (map fst m) \<Longrightarrow> distinct (map fst (handle_event m e))"
  by (cases e) (simp_all add: on_connection_def on_disconnect_def Let_def distinct_update distinct_delete)

lemma foldl_handle_event_distinct:
  "distinct (map fst m) \<Longrightarrow> distinct (map fst (foldl handle_event m evs))"
  by (induction evs arbitrary: m) (simp_all add: handle_event_distinct)

text \<open>
  C9. After any sequence of connection and disconnect events, starting from the empty
  registry, no user id has two entries; and right after the connection of a socket, the
  lookup of its user id yields that socket's id, whatever was registered before.
\<close>

theorem C9_one_handle_per_user:
  "distinct (map fst (run_events evs []))
   \<and> getReceiverSocketId (fst (on_connection s m)) (socket_userId s) = Some (socket_id s)"
  by (simp add: run_events_def foldl_handle_event_distinct on_connection_def Let_def
      getReceiverSocketId_def update_conv')

text \<open>
  C9 at a concrete input: user \<open>u1\<close> connects twice and user \<open>u2\<close> once.
\<close>

theorem C9_one_handle_per_user_witness:
  "distinct (map fst (run_events
      [Connection \<lparr>socket_userId = ''u1'', socket_id = ''h1''\<rparr>,
       Connection \<lparr>socket_userId = ''u2'', socket_id = ''k''\<rparr>,
       Connection \<lparr>socket_userId = ''u1'', socket_id = ''h2''\<rparr>] []))
   \<and> getReceiverSocketId
        (fst (on_connection \<lparr>socket_userId = ''u1'', socket_id = ''h2''\<rparr> [(''u1'', ''h1'')])) ''u1''
      = Some ''h2''"
  using C9_one_handle_per_user
    [of "[Connection \<lparr>socket_userId = ''u1'', socket_id = ''h1''\<rparr>,
          Connection \<lparr>socket_userId = ''u2'', socket_id = ''k''\<rparr>,
          Connection \<lparr>socket_userId = ''u1'', socket_id = ''h2''\<rparr>]"
        "\<lparr>socket_userId = ''u1'', socket_id = ''h2''\<rparr>" "[(''u1'', ''h1'')]"]
  by simp

text \<open>
  C1, as stated, at a concrete input: user \<open>u\<close> connects with socket \<open>h1\<close>, connects again
  with socket \<open>h2\<close>, and then the first socket disconnects. The lookup of \<open>u\<close> is empty
  afterwards, not \<open>h2\<close>.
\<close>

theorem C1_stale_disconnect_counterexample:
  "getReceiverSocketId
     (run_events
        [Connection \<lparr>socket_userId = ''u'', socket_id = ''h1''\<rparr>,
         Connection \<lparr>socket_userId = ''u'', socket_id = ''h2''\<rparr>,
         Disconnect \<lparr>socket_userId = ''u'', socket_id = ''h1''\<rparr>] [])
     ''u'' \<noteq> Some ''h2''"
  by (simp add: run_events_def on_connection_def on_disconnect_def Let_def getReceiverSocketId_def)

text \<open>
  C1, amended. The disconnect handler deletes the entry of its user id whatever handle is
  stored there: afterwards the lookup of that user is empty, and the lookup of every other
  user is what it was.
\<close>

theorem C1_disconnect_removes_unconditionally:
  "getReceiverSocketId (fst (on_disconnect s m))
     = (getReceiverSocketId m) ((socket_userId s) := None)"
  by (rule ext) (simp add: on_disconnect_def Let_def getReceiverSocketId_def delete_conv')

text \<open>
  The amended C1 at a concrete input: the registry holds \<open>h2\<close> for \<open>u\<close> and \<open>k\<close> for \<open>v\<close>,
  and the stale socket \<open>h1\<close> of \<open>u\<close> disconnects.
\<close>

theorem C1_disconnect_removes_unconditionally_witness:
  "getReceiverSocketId
     (fst (on_disconnect \<lparr>socket_userId = ''u'', socket_id = ''h1''\<rparr> [(''u'', ''h2''), (''v'', ''k'')]))
     ''u'' = None
   \<and> getReceiverSocketId
     (fst (on_disconnect \<lparr>socket_userId = ''u'', socket_id = ''h1''\<rparr> [(''u'', ''h2''), (''v'', ''k'')]))
     ''v'' = Some ''k''"
  using C1_disconnect_removes_unconditionally
    [of "\<lparr>socket_userId = ''u'', socket_id = ''h1''\<rparr>" "[(''u'', ''h2''), (''v'', ''k'')]"]
  by (simp add: getReceiverSocketId_def)

section \<open>Conversation pages: properties\<close>

lemma set_sort_createdAt_desc: "set (sort_createdAt_desc ms) = set ms"
  by (simp add: sort_createdAt_desc_def)

lemma length_sort_createdAt_desc: "length (sort_createdAt_desc ms) = length ms"
  by (simp add: sort_createdAt_desc_def)

lemma distinct_sort_createdAt_desc: "distinct (sort_createdAt_desc ms) = distinct ms"
  by (simp add: sort_createdAt_desc_def)

lemma sorted_sort_createdAt_desc:
  "sorted (map (\<lambda>m. - createdAt m) (sort_createdAt_desc ms))"
  by (simp add: sort_createdAt_desc_def)

lemma parse_limit_in_range: "1 \<le> L \<Longrightarrow> L \<le> 100 \<Longrightarrow> parse_limit (Some L) = L"
  by (simp add: parse_limit_def defaultLimit_def maxLimit_def)

lemma take_Suc_trim:
  "(if n < length xs then butlast (take (Suc n) xs) else take (Suc n) xs) = take n xs"
  by (simp add: butlast_take)

lemma page_in_range:
  fixes db :: "message list" and a b :: userId and c :: "timestamp option" and L :: int
  assumes "1 \<le> L" "L \<le> 100"
  shows "hasMore (getMessagesBetweenUsers db a b \<lparr>opt_limit = Some L, opt_before = c\<rparr>)
           \<longleftrightarrow> nat L < length (filter (\<lambda>m. conversation_query a b m \<and> cursor_condition c m) db)"
    and "page_messages (getMessagesBetweenUsers db a b \<lparr>opt_limit = Some L, opt_before = c\<rparr>)
           = rev (take (nat L) (sort_createdAt_desc
                (filter (\<lambda>m. conversation_query a b m \<and> cursor_condition c m) db)))"
    and "nextCursor (getMessagesBetweenUsers db a b \<lparr>opt_limit = Some L, opt_before = c\<rparr>)
           = (if hasMore (getMessagesBetweenUsers db a b \<lparr>opt_limit = Some L, opt_before = c\<rparr>)
              then Some (createdAt (hd (page_messages
                     (getMessagesBetweenUsers db a b \<lparr>opt_limit = Some L, opt_before = c\<rparr>))))
              else None)"
proof -
  let ?el = "filter (\<lambda>m. conversation_query a b m \<and> cursor_condition c m) db"
  let ?xs = "sort_createdAt_desc ?el"
  let ?r = "getMessagesBetweenUsers db a b \<lparr>opt_limit = Some L, opt_before = c\<rparr>"
  let ?found = "take (Suc (nat L)) ?xs"
  have lim: "parse_limit (Some L) = L" using assms by (simp add: parse_limit_in_range)
  have ml: "mongo_limit (L + 1) ?xs = ?found"
    using assms by (simp add: mongo_limit_def nat_add_distrib)
  have len: "length ?xs = length ?el" by (rule length_sort_createdAt_desc)
  have more: "(int (length ?found) > L) \<longleftrightarrow> nat L < length ?el"
    using assms len by (auto simp: min_def)
  have trimmed: "(if nat L < length ?el then butlast ?found else ?found) = take (nat L) ?xs"
    using take_Suc_trim[of "nat L" ?xs] len by simp
  have r: "?r = \<lparr>page_messages = rev (take (nat L) ?xs), hasMore = (nat L < length ?el),
      nextCursor = (if nat L < length ?el \<and> length (take (nat L) ?xs) > 0
          then Some (createdAt (last (take (nat L) ?xs))) else None)\<rparr>"
    unfolding getMessagesBetweenUsers_def Let_def options.simps lim ml more trimmed by simp
  show hm: "hasMore ?r \<longleftrightarrow> nat L < length ?el"
    unfolding r by simp
  show pm: "page_messages ?r = rev (take (nat L) ?xs)"
    unfolding r by simp
  have "nat L < length ?el \<Longrightarrow> take (nat L) ?xs \<noteq> [] \<and> 0 < length (take (nat L) ?xs)"
    using assms len by auto
  then show "nextCursor ?r = (if hasMore ?r then Some (createdAt (hd (page_messages ?r))) else None)"
    unfolding r by (auto simp: hd_rev)
qed



lemma desc_sort_createdAt_desc:
  "sorted_wrt (\<lambda>x y. createdAt y \<le> createdAt x) (sort_createdAt_desc ms)"
proof -
  have "sorted (map (\<lambda>m. - createdAt m) (sort_createdAt_desc ms))"
    by (rule sorted_sort_createdAt_desc)
  then show ?thesis by (simp add: sorted_map)
qed

lemma found_subset: "set (mongo_limit n xs) \<subseteq> set xs"
  by (auto simp: mongo_limit_def dest: in_set_takeD)

lemma desc_mongo_limit:
  "sorted_wrt P xs \<Longrightarrow> sorted_wrt P (mongo_limit n xs)"
  by (simp add: mongo_limit_def sorted_wrt_take)

lemma distinct_mongo_limit: "distinct xs \<Longrightarrow> distinct (mongo_limit n xs)"
  by (simp add: mongo_limit_def)

lemma desc_butlast: "sorted_wrt P xs \<Longrightarrow> sorted_wrt P (butlast xs)"
  by (simp add: butlast_conv_take sorted_wrt_take)

lemma page_messages_unfold:
  "page_messages (getMessagesBetweenUsers db a b opts) =
     rev (if int (length (mongo_limit (parse_limit (opt_limit opts) + 1)
               (sort_createdAt_desc (filter (\<lambda>m. conversation_query a b m
                   \<and> cursor_condition (opt_before opts) m) db))))
             > parse_limit (opt_limit opts)
          then butlast (mongo_limit (parse_limit (opt_limit opts) + 1)
               (sort_createdAt_desc (filter (\<lambda>m. conversation_query a b m
                   \<and> cursor_condition (opt_before opts) m) db)))
          else mongo_limit (parse_limit (opt_limit opts) + 1)
               (sort_createdAt_desc (filter (\<lambda>m. conversation_query a b m
                   \<and> cursor_condition (opt_before opts) m) db)))"
  by (simp add: getMessagesBetweenUsers_def Let_def)


lemma set_trim: "set (if c then butlast xs else xs) \<subseteq> set xs"
  by (auto dest: in_set_butlastD)

lemma page_member:
  assumes "m \<in> set (page_messages (getMessagesBetweenUsers db a b opts))"
  shows "m \<in> set db \<and> conversation_query a b m \<and> cursor_condition (opt_before opts) m"
proof -
  let ?xs = "sort_createdAt_desc (filter (\<lambda>m. conversation_query a b m \<and> cursor_condition (opt_before opts) m) db)"
  let ?found = "mongo_limit (parse_limit (opt_limit opts) + 1) ?xs"
  have "set (page_messages (getMessagesBetweenUsers db a b opts)) \<subseteq> set ?found"
    unfolding page_messages_unfold set_rev by (rule set_trim)
  with assms have "m \<in> set ?found" by (rule rev_subsetD)
  then have "m \<in> set ?xs" by (rule subsetD[OF found_subset])
  then show ?thesis unfolding set_sort_createdAt_desc by simp
qed


lemma distinct_trim: "distinct xs \<Longrightarrow> distinct (if c then butlast xs else xs)"
  by (simp add: distinct_butlast)

lemma desc_trim: "sorted_wrt P xs \<Longrightarrow> sorted_wrt P (if c then butlast xs else xs)"
  by (simp add: desc_butlast)

lemma page_distinct:
  assumes "distinct db"
  shows "distinct (page_messages (getMessagesBetweenUsers db a b opts))"
proof -
  let ?xs = "sort_createdAt_desc (filter (\<lambda>m. conversation_query a b m \<and> cursor_condition (opt_before opts) m) db)"
  have "distinct ?xs" using assms by (simp add: distinct_sort_createdAt_desc)
  then have "distinct (mongo_limit (parse_limit (opt_limit opts) + 1) ?xs)"
    by (rule distinct_mongo_limit)
  then show ?thesis
    unfolding page_messages_unfold distinct_rev by (rule distinct_trim)
qed

lemma nextCursor_unfold:
  "nextCursor (getMessagesBetweenUsers db a b opts) =
     (if hasMore (getMessagesBetweenUsers db a b opts)
         \<and> length (page_messages (getMessagesBetweenUsers db a b opts)) > 0
      then Some (createdAt (hd (page_messages (getMessagesBetweenUsers db a b opts))))
      else None)"
  by (simp add: getMessagesBetweenUsers_def Let_def hd_rev)

lemma page_ascending:
  "sorted_wrt (\<lambda>x y. createdAt x \<le> createdAt y) (page_messages (getMessagesBetweenUsers db a b opts))"
proof -
  let ?xs = "sort_createdAt_desc (filter (\<lambda>m. conversation_query a b m \<and> cursor_condition (opt_before opts) m) db)"
  have "sorted_wrt (\<lambda>x y. createdAt y \<le> createdAt x) (mongo_limit (parse_limit (opt_limit opts) + 1) ?xs)"
    by (intro desc_mongo_limit desc_sort_createdAt_desc)
  then show ?thesis
    unfolding page_messages_unfold sorted_wrt_rev by (rule desc_trim)
qed

lemma cursor_lower_bound:
  assumes "nextCursor (getMessagesBetweenUsers db a b opts) = Some t"
  shows "(\<forall>m \<in> set (page_messages (getMessagesBetweenUsers db a b opts)). t \<le> createdAt m)
         \<and> (\<exists>m \<in> set (page_messages (getMessagesBetweenUsers db a b opts)). createdAt m = t)"
proof -
  let ?p = "page_messages (getMessagesBetweenUsers db a b opts)"
  from assms have ne: "?p \<noteq> []" and t: "t = createdAt (hd ?p)"
    by (subst (asm) nextCursor_unfold; simp split: if_splits)+
  from ne obtain x xs where p: "?p = x # xs" by (cases ?p) auto
  have "sorted_wrt (\<lambda>x y. createdAt x \<le> createdAt y) ?p" by (rule page_ascending)
  then have "\<forall>m \<in> set ?p. createdAt x \<le> createdAt m"
    unfolding p by auto
  moreover have "x \<in> set ?p" unfolding p by simp
  moreover have "t = createdAt x" using t unfolding p by simp
  ultimately show ?thesis by blast
qed


lemma page_sequence_before:
  "r \<in> set (page_sequence db a b (Some t) ls) \<Longrightarrow> m \<in> set (page_messages r)
     \<Longrightarrow> createdAt m < t"
proof (induction ls arbitrary: t)
  case Nil
  then show ?case by simp
next
  case (Cons l ls)
  let ?r = "getMessagesBetweenUsers db a b \<lparr>opt_limit = l, opt_before = Some t\<rparr>"
  show ?case
  proof (cases "r = ?r")
    case True
    with Cons.prems(2) show ?thesis
      using page_member[of m db a b "\<lparr>opt_limit = l, opt_before = Some t\<rparr>"]
      by (simp add: cursor_condition_def)
  next
    case False
    show ?thesis
    proof (cases "nextCursor ?r")
      case None
      with Cons.prems(1) False show ?thesis by (simp add: Let_def)
    next
      case (Some t')
      with Cons.prems(1) False have r: "r \<in> set (page_sequence db a b (Some t') ls)"
        by (simp add: Let_def)
      from Some obtain m' where "m' \<in> set (page_messages ?r)" "createdAt m' = t'"
        using cursor_lower_bound by blast
      then have "t' < t"
        using page_member[of m' db a b "\<lparr>opt_limit = l, opt_before = Some t\<rparr>"]
        by (simp add: cursor_condition_def)
      moreover have "createdAt m < t'" using Cons.IH[OF r Cons.prems(2)] .
      ultimately show ?thesis by simp
    qed
  qed
qed

lemma page_sequence_distinct:
  "distinct db \<Longrightarrow> distinct (concat (map page_messages (page_sequence db a b before ls)))"
proof (induction ls arbitrary: before)
  case Nil
  then show ?case by simp
next
  case (Cons l ls)
  let ?r = "getMessagesBetweenUsers db a b \<lparr>opt_limit = l, opt_before = before\<rparr>"
  have d: "distinct (page_messages ?r)" using Cons.prems by (rule page_distinct)
  show ?case
  proof (cases "nextCursor ?r")
    case None
    then show ?thesis using d by (simp add: Let_def)
  next
    case (Some t')
    have rest: "distinct (concat (map page_messages (page_sequence db a b (Some t') ls)))"
      using Cons.prems by (rule Cons.IH)
    have "set (page_messages ?r) \<inter> set (concat (map page_messages (page_sequence db a b (Some t') ls))) = {}"
    proof (rule ccontr)
      assume "\<not> ?thesis"
      then obtain m r where m: "m \<in> set (page_messages ?r)"
        and r: "r \<in> set (page_sequence db a b (Some t') ls)" and mr: "m \<in> set (page_messages r)"
        by auto
      from Some m have "t' \<le> createdAt m" using cursor_lower_bound by blast
      moreover from r mr have "createdAt m < t'" by (rule page_sequence_before)
      ultimately show False by simp
    qed
    with d rest Some show ?thesis by (simp add: Let_def)
  qed
qed

lemma page_sequence_in_db:
  "r \<in> set (page_sequence db a b before ls) \<Longrightarrow> m \<in> set (page_messages r) \<Longrightarrow> m \<in> set db"
proof (induction ls arbitrary: before)
  case Nil
  then show ?case by simp
next
  case (Cons l ls)
  then show ?case
    using page_member[of m db a b "\<lparr>opt_limit = l, opt_before = before\<rparr>"]
    by (auto simp: Let_def split: option.splits)
qed

lemma page_sequence_distinct_ids:
  assumes "distinct (map msg_id db)"
  shows "distinct (concat (map (\<lambda>r. map msg_id (page_messages r)) (page_sequence db a b before ls)))"
proof -
  from assms have d: "distinct db" and inj: "inj_on msg_id (set db)"
    by (simp_all add: distinct_map)
  let ?all = "concat (map page_messages (page_sequence db a b before ls))"
  have "set ?all \<subseteq> set db" using page_sequence_in_db by fastforce
  then have "inj_on msg_id (set ?all)" using inj by (rule inj_on_subset[rotated])
  moreover have "distinct ?all" using d by (rule page_sequence_distinct)
  ultimately have "distinct (map msg_id ?all)" by (simp add: distinct_map)
  then show ?thesis by (simp add: map_concat comp_def)
qed

text \<open>
  C2. For a limit \<open>L\<close> in the configured range (from 1 to \<open>maxLimit\<close>) and any cursor
  \<open>c\<close>: the query takes the first \<open>L + 1\<close> of the messages of the unordered pair
  (strictly older than \<open>c\<close> when a cursor is given) in descending \<open>createdAt\<close> order;
  \<open>hasMore\<close> holds exactly when more than \<open>L\<close> candidates were found; the page is
  the first \<open>L\<close> of them, reversed, so it ascends in \<open>createdAt\<close>; and \<open>nextCursor\<close>
  is the \<open>createdAt\<close> of the first (oldest) message of the page when \<open>hasMore\<close>
  holds, and absent otherwise.
\<close>

theorem C2_page_shape:
  assumes "1 \<le> L" and "L \<le> maxLimit"
  shows "(hasMore (getMessagesBetweenUsers db a b \<lparr>opt_limit = Some L, opt_before = c\<rparr>)
            \<longleftrightarrow> L < int (length (take (nat (L + 1)) (sort_createdAt_desc
                  (filter (\<lambda>m. conversation_query a b m \<and> cursor_condition c m) db)))))
       \<and> page_messages (getMessagesBetweenUsers db a b \<lparr>opt_limit = Some L, opt_before = c\<rparr>)
            = rev (take (nat L) (sort_createdAt_desc
                  (filter (\<lambda>m. conversation_query a b m \<and> cursor_condition c m) db)))
       \<and> sorted_wrt (\<lambda>x y. createdAt x \<le> createdAt y)
            (page_messages (getMessagesBetweenUsers db a b \<lparr>opt_limit = Some L, opt_before = c\<rparr>))
       \<and> nextCursor (getMessagesBetweenUsers db a b \<lparr>opt_limit = Some L, opt_before = c\<rparr>)
            = (if hasMore (getMessagesBetweenUsers db a b \<lparr>opt_limit = Some L, opt_before = c\<rparr>)
               then Some (createdAt (hd (page_messages
                      (getMessagesBetweenUsers db a b \<lparr>opt_limit = Some L, opt_before = c\<rparr>))))
               else None)"
proof -
  have L: "1 \<le> L" "L \<le> 100" using assms by (simp_all add: maxLimit_def)
  have "(L < int (length (take (nat (L + 1)) (sort_createdAt_desc
                  (filter (\<lambda>m. conversation_query a b m \<and> cursor_condition c m) db)))))
        \<longleftrightarrow> nat L < length (filter (\<lambda>m. conversation_query a b m \<and> cursor_condition c m) db)"
    using L by (auto simp: length_sort_createdAt_desc min_def)
  then show ?thesis
    using page_in_range[OF L, of db a b c] page_ascending[of db a b "\<lparr>opt_limit = Some L, opt_before = c\<rparr>"]
    by simp
qed


text \<open>
  The hypotheses of C2 hold at limit 2 on the example collection, where the conversation
  of \<open>a\<close> and \<open>b\<close> has four messages.
\<close>

theorem C2_page_shape_witness:
  "(1::int) \<le> 2 \<and> 2 \<le> maxLimit
   \<and> hasMore (getMessagesBetweenUsers example_messages ''a'' ''b'' \<lparr>opt_limit = Some 2, opt_before = None\<rparr>)
   \<and> map msg_id (page_messages (getMessagesBetweenUsers example_messages ''a'' ''b''
          \<lparr>opt_limit = Some 2, opt_before = None\<rparr>)) = [''m4'', ''m5'']
   \<and> nextCursor (getMessagesBetweenUsers example_messages ''a'' ''b'' \<lparr>opt_limit = Some 2, opt_before = None\<rparr>)
        = Some 30"
proof -
  have h: "(1::int) \<le> 2" "2 \<le> maxLimit" by (simp_all add: maxLimit_def)
  have e1: "(2 < int (length (take (nat (2 + 1)) (sort_createdAt_desc
                  (filter (\<lambda>m. conversation_query ''a'' ''b'' m \<and> cursor_condition None m)
                     example_messages))))) = True"
    by code_simp
  have e2: "map msg_id (rev (take (nat 2) (sort_createdAt_desc
                  (filter (\<lambda>m. conversation_query ''a'' ''b'' m \<and> cursor_condition None m)
                     example_messages)))) = [''m4'', ''m5'']"
    by code_simp
  have e3: "createdAt (hd (rev (take (nat 2) (sort_createdAt_desc
                  (filter (\<lambda>m. conversation_query ''a'' ''b'' m \<and> cursor_condition None m)
                     example_messages))))) = 30"
    by code_simp
  from C2_page_shape[OF h, of example_messages "''a''" "''b''" None] e1 e2 e3 h
  show ?thesis by simp
qed

text \<open>
  C4. On a fixed collection whose message ids are unique, the pages of a page sequence
  (each call passing the previous \<open>nextCursor\<close> as \<open>before\<close>, with any limits) share
  no message id, and no id occurs twice within a page; and every message of a page
  fetched with cursor \<open>t\<close> is strictly older than \<open>t\<close>.
\<close>

theorem C4_pages_do_not_overlap:
  assumes "distinct (map msg_id db)"
  shows "distinct (concat (map (\<lambda>r. map msg_id (page_messages r)) (page_sequence db a b before limits)))
       \<and> (\<forall>m \<in> set (page_messages (getMessagesBetweenUsers db a b \<lparr>opt_limit = l, opt_before = Some t\<rparr>)).
            createdAt m < t)"
proof -
  have "createdAt m < t"
    if "m \<in> set (page_messages (getMessagesBetweenUsers db a b \<lparr>opt_limit = l, opt_before = Some t\<rparr>))" for m
    using page_member[OF that] by (simp add: cursor_condition_def)
  then show ?thesis using page_sequence_distinct_ids[OF assms] by blast
qed

text \<open>
  The example collection has unique ids; paging through the conversation of \<open>a\<close> and
  \<open>b\<close> with limit 2 and then the default limit gives two disjoint pages.
\<close>

theorem C4_pages_do_not_overlap_witness:
  "distinct (map msg_id example_messages)
   \<and> length (page_sequence example_messages ''a'' ''b'' None [Some 2, None, Some 1]) = 2
   \<and> concat (map (\<lambda>r. map msg_id (page_messages r))
        (page_sequence example_messages ''a'' ''b'' None [Some 2, None, Some 1]))
      = [''m4'', ''m5'', ''m1'', ''m2'']
   \<and> distinct (concat (map (\<lambda>r. map msg_id (page_messages r))
        (page_sequence example_messages ''a'' ''b'' None [Some 2, None, Some 1])))"
proof -
  have h: "distinct (map msg_id example_messages)" by code_simp
  have e: "length (page_sequence example_messages ''a'' ''b'' None [Some 2, None, Some 1]) = 2
    \<and> concat (map (\<lambda>r. map msg_id (page_messages r))
        (page_sequence example_messages ''a'' ''b'' None [Some 2, None, Some 1]))
      = [''m4'', ''m5'', ''m1'', ''m2'']" by code_simp
  from C4_pages_do_not_overlap[OF h, of "''a''" "''b''" None "[Some 2, None, Some 1]"] h e
  show ?thesis by blast
qed

text \<open>
  C3, at the parsed limit \<open>- 5\<close> of the specification's scenario: the limit is neither
  replaced by the default nor clamped into the range, where the limit 0 is replaced. Since
  every length exceeds \<open>- 5\<close>, the call on an empty conversation reports \<open>hasMore\<close> with
  no \<open>nextCursor\<close>, where the call with limit 50 reports no more. At the parsed limit
  \<open>- 1\<close> the query runs without a bound: the call reports \<open>hasMore\<close> and returns every
  eligible message but the oldest.
\<close>

theorem C3_negative_limit_not_clamped:
  "parse_limit (Some (- 5)) = - 5
   \<and> parse_limit (Some 0) = defaultLimit
   \<and> getMessagesBetweenUsers [] ''x'' ''y'' \<lparr>opt_limit = Some (- 5), opt_before = None\<rparr>
       = \<lparr>page_messages = [], hasMore = True, nextCursor = None\<rparr>
   \<and> getMessagesBetweenUsers [] ''x'' ''y'' \<lparr>opt_limit = Some 50, opt_before = None\<rparr>
       = \<lparr>page_messages = [], hasMore = False, nextCursor = None\<rparr>
   \<and> hasMore (getMessagesBetweenUsers db a b \<lparr>opt_limit = Some (- 1), opt_before = c\<rparr>)
   \<and> page_messages (getMessagesBetweenUsers db a b \<lparr>opt_limit = Some (- 1), opt_before = c\<rparr>)
       = rev (butlast (sort_createdAt_desc
           (filter (\<lambda>m. conversation_query a b m \<and> cursor_condition c m) db)))"
proof -
  have 1: "parse_limit (Some (- 5)) = - 5" "parse_limit (Some 0) = defaultLimit"
    "parse_limit (Some 50) = 50" "parse_limit (Some (- 1)) = - 1"
    by (simp_all add: parse_limit_def defaultLimit_def maxLimit_def)
  have 2: "getMessagesBetweenUsers [] ''x'' ''y'' \<lparr>opt_limit = Some (- 5), opt_before = None\<rparr>
       = \<lparr>page_messages = [], hasMore = True, nextCursor = None\<rparr>"
    by (simp add: getMessagesBetweenUsers_def Let_def 1 mongo_limit_def sort_createdAt_desc_def)
  have 3: "getMessagesBetweenUsers [] ''x'' ''y'' \<lparr>opt_limit = Some 50, opt_before = None\<rparr>
       = \<lparr>page_messages = [], hasMore = False, nextCursor = None\<rparr>"
    by (simp add: getMessagesBetweenUsers_def Let_def 1 mongo_limit_def sort_createdAt_desc_def)
  have 4: "hasMore (getMessagesBetweenUsers db a b \<lparr>opt_limit = Some (- 1), opt_before = c\<rparr>)"
    by (simp add: getMessagesBetweenUsers_def Let_def 1 mongo_limit_def)
  have 5: "page_messages (getMessagesBetweenUsers db a b \<lparr>opt_limit = Some (- 1), opt_before = c\<rparr>)
       = rev (butlast (sort_createdAt_desc
           (filter (\<lambda>m. conversation_query a b m \<and> cursor_condition c m) db)))"
    by (simp add: getMessagesBetweenUsers_def Let_def 1 mongo_limit_def)
  from 1(1,2) 2 3 4 5 show ?thesis by blast
qed

section \<open>Sending: properties\<close>

lemma Message_create_success:
  assumes "Message_create db newId now s r txt img = (Inr m, db')"
  shows "db' = db @ [m] \<and> castObjectId s = Some (senderId m) \<and> castObjectId r = Some (receiverId m)
         \<and> msg_text m = trim txt \<and> msg_image m = img \<and> msg_id m = newId \<and> createdAt m = now"
  using assms
  by (auto simp: Message_create_def Let_def split: option.splits if_splits)

lemma sendMessage_success:
  assumes "sendMessage users db newId now s r c = (Inr m, db')"
  shows "(truthy (content_text c) \<or> truthy (content_image c))
         \<and> (\<exists>u \<in> set users. user_id u = receiverId m) \<and> s \<noteq> r
         \<and> db' = db @ [m] \<and> castObjectId s = Some (senderId m) \<and> castObjectId r = Some (receiverId m)
         \<and> msg_text m = trim (or_empty (content_text c)) \<and> msg_image m = or_empty (content_image c)"
proof -
  from assms obtain rid where ok: "truthy (content_text c) \<or> truthy (content_image c)"
    and rid: "castObjectId r = Some rid"
    and found: "find (\<lambda>u. user_id u = rid) users \<noteq> None" and ne: "s \<noteq> r"
    and mc: "Message_create db newId now s r (or_empty (content_text c)) (or_empty (content_image c)) = (Inr m, db')"
    by (auto simp: sendMessage_def Let_def split: if_splits option.splits)
  from found have "\<exists>u \<in> set users. user_id u = rid"
    by (auto simp: find_None_iff)
  with ok ne rid Message_create_success[OF mc] show ?thesis by auto
qed

lemma sendMessage_rejects_empty:
  "\<not> truthy (content_text c) \<and> \<not> truthy (content_image c) \<Longrightarrow>
     sendMessage users db newId now s r c
       = (Inl (BadRequestError ''Message must contain text or image''), db)"
  by (simp add: sendMessage_def Let_def)

lemma sendMessage_rejects_self:
  "\<exists>e. sendMessage users db newId now s s c = (Inl e, db)"
  by (simp add: sendMessage_def Let_def split: option.splits)

lemma prefix_hd: "ys = p @ q \<Longrightarrow> p \<noteq> [] \<Longrightarrow> hd p = hd ys"
  by (cases p) auto

lemma dropWhile_noop: "p = [] \<or> \<not> P (hd p) \<Longrightarrow> dropWhile P p = p"
  by (cases p) auto

lemma trim_idem: "trim (trim s) = trim s"
proof -
  define a where "a = dropWhile is_space s"
  define p where "p = rev (dropWhile is_space (rev a))"
  define q where "q = rev (takeWhile is_space (rev a))"
  have tp: "trim s = p" by (simp add: trim_def p_def a_def)
  have "rev (p @ q) = rev a"
    unfolding p_def q_def by (simp only: rev_append rev_rev_ident takeWhile_dropWhile_id)
  then have split: "a = p @ q" by (simp only: rev_is_rev_conv)
  have a_ok: "a = [] \<or> \<not> is_space (hd a)"
    unfolding a_def using hd_dropWhile[of is_space s] by blast
  have "p = [] \<or> \<not> is_space (hd p)"
  proof (cases "p = []")
    case True
    then show ?thesis by simp
  next
    case False
    have "hd p = hd a" using split False by (rule prefix_hd)
    moreover have "a \<noteq> []" using split False by simp
    ultimately show ?thesis using a_ok by simp
  qed
  then have 1: "dropWhile is_space p = p" by (rule dropWhile_noop)
  have 2: "rev p = dropWhile is_space (rev a)" by (simp add: p_def)
  have "trim p = rev (dropWhile is_space (rev (dropWhile is_space p)))" by (simp add: trim_def)
  also have "\<dots> = rev (dropWhile is_space (dropWhile is_space (rev a)))" unfolding 1 2 ..
  also have "\<dots> = rev (dropWhile is_space (rev a))" by (simp only: dropWhile_idem)
  also have "\<dots> = p" by (simp add: p_def)
  finally show ?thesis unfolding tp .
qed

lemma sanitize_field_trimmed:
  "trim (or_empty (sanitize_field v)) = or_empty (sanitize_field v)"
proof (cases "truthy v")
  case True
  then show ?thesis by (simp add: sanitize_field_def or_empty_def trim_idem)
next
  case False
  then have "or_empty v = []" by (cases v) (simp_all add: truthy_def or_empty_def)
  with False show ?thesis by (simp add: sanitize_field_def trim_def)
qed

lemma handle_image_early:
  "handle_image env img = Inl r \<Longrightarrow> \<exists>n t. r = Json n (BodyText t)"
  by (auto simp: handle_image_def split: if_splits sum.splits)

lemma validateSendMessage_rejects:
  "validateSendMessage lib req = Inl r \<Longrightarrow> r = Json 400 (BodyText ''Validation failed'')"
  by (simp add: validateSendMessage_def Let_def split: if_splits)

text \<open>
  Through the send route, \<open>sendMessage\<close> only receives a text that is already trimmed, so
  every message persisted by a request has a text that is trimmed and non-empty, or a
  non-empty image; and the two ids of the request differ as strings.
\<close>

lemma send_route_persists_valid:
  assumes "out_reply (send_route lib env users db reg req) = Json 201 (BodyMessage m)"
  shows "(trim (msg_text m) \<noteq> [] \<or> msg_image m \<noteq> [])
       \<and> trim (msg_text m) = msg_text m
       \<and> req_senderId req \<noteq> req_receiverId req
       \<and> out_db (send_route lib env users db reg req) = db @ [m]"
proof -
  from assms obtain req' where v: "validateSendMessage lib req = Inr req'"
    and c: "out_reply (sendMessage_controller env users db reg req') = Json 201 (BodyMessage m)"
    and d: "out_db (send_route lib env users db reg req)
              = out_db (sendMessage_controller env users db reg req')"
    by (cases "validateSendMessage lib req")
       (auto simp: send_route_def dest: validateSendMessage_rejects)
  from v have t: "req_text req' = sanitize_field (req_text req)"
    and ids: "req_senderId req' = req_senderId req" "req_receiverId req' = req_receiverId req"
    by (auto simp: validateSendMessage_def Let_def split: if_splits)
  from c obtain url where u: "handle_image env (req_image req') = Inr url"
    by (cases "handle_image env (req_image req')")
       (auto simp: sendMessage_controller_def dest: handle_image_early)
  obtain res db' where s0: "sendMessage users db (env_newId env) (env_now env) (req_senderId req')
        (req_receiverId req') \<lparr>content_text = Some (or_empty (req_text req')), content_image = Some url\<rparr>
        = (res, db')"
    by (rule prod.exhaust)
  from c u s0 have res: "res = Inr m"
    by (cases res) (simp_all add: sendMessage_controller_def split_beta)
  from u s0 res have d': "out_db (sendMessage_controller env users db reg req') = db'"
    by (simp add: sendMessage_controller_def split_beta)
  note s = s0[unfolded res]
  from sendMessage_success[OF s]
  have ok: "truthy (Some (or_empty (req_text req'))) \<or> truthy (Some url)"
    and ne: "req_senderId req' \<noteq> req_receiverId req'" and db': "db' = db @ [m]"
    and mt: "msg_text m = trim (or_empty (req_text req'))" and mi: "msg_image m = url"
    by (simp_all add: or_empty_def)
  have same: "msg_text m = or_empty (req_text req')"
    unfolding mt t by (rule sanitize_field_trimmed)
  have trimmed: "trim (msg_text m) = msg_text m"
    using mt same by simp
  from ok mi same trimmed have "trim (msg_text m) \<noteq> [] \<or> msg_image m \<noteq> []"
    by (auto simp: truthy_def)
  with trimmed ne ids db' d d' show ?thesis by simp
qed

text \<open>
  C6, as stated, at a concrete input: user \<open>id_a\<close> sends to the existing user \<open>id_b\<close> a
  content whose text is three spaces and whose image is empty. The call succeeds, and the
  message persisted has an empty text and an empty image.
\<close>

theorem C6_whitespace_text_counterexample:
  "sendMessage example_accounts [] ''m6'' 50 id_a id_b
       \<lparr>content_text = Some (ascii ''   ''), content_image = Some []\<rparr>
   = (Inr \<lparr>msg_id = ''m6'', senderId = id_a, receiverId = id_b,
             msg_text = [], msg_image = [], createdAt = 50\<rparr>,
      [\<lparr>msg_id = ''m6'', senderId = id_a, receiverId = id_b,
             msg_text = [], msg_image = [], createdAt = 50\<rparr>])"
  by code_simp

text \<open>
  The self-send test compares the two ids as the strings given, while the lookup and the
  stored document use the ObjectIds they are cast to. User \<open>id_a\<close> sending to its own id
  written in upper case passes the test, and the message persisted has the same sender
  and receiver.
\<close>

lemma sendMessage_to_own_id_in_upper_case:
  "sendMessage example_accounts [] ''m6'' 50 id_a ''64B0C0FFEE00000000000A01''
       \<lparr>content_text = Some (ascii ''hi''), content_image = None\<rparr>
   = (Inr \<lparr>msg_id = ''m6'', senderId = id_a, receiverId = id_a,
             msg_text = ascii ''hi'', msg_image = [], createdAt = 50\<rparr>,
      [\<lparr>msg_id = ''m6'', senderId = id_a, receiverId = id_a,
             msg_text = ascii ''hi'', msg_image = [], createdAt = 50\<rparr>])"
  by code_simp

text \<open>
  C6, amended. A call of \<open>sendMessage\<close> whose text and image are both empty or absent as
  given, and a call whose sender id and receiver id are the same string, ends with an
  error and writes nothing. Every message that \<open>sendMessage\<close> persists comes from a
  content whose text or image was not empty as given and from two ids that differ as
  strings, has a receiver that is a known user, and is appended to the collection.
  Through the send route, whose validation trims the text before the controller runs,
  every message persisted has a text that is non-empty after trimming or a non-empty
  image.
\<close>

theorem C6_persisted_message_invariant:
  "(\<not> truthy (content_text c) \<and> \<not> truthy (content_image c) \<longrightarrow>
      (\<exists>e. sendMessage users db newId now s r c = (Inl e, db)))
   \<and> (\<exists>e. sendMessage users db newId now s s c = (Inl e, db))
   \<and> (sendMessage users db newId now s r c = (Inr m, db') \<longrightarrow>
        s \<noteq> r
        \<and> (truthy (content_text c) \<or> truthy (content_image c))
        \<and> (\<exists>u \<in> set users. user_id u = receiverId m)
        \<and> db' = db @ [m])
   \<and> (out_reply (send_route lib env users db reg req) = Json 201 (BodyMessage m') \<longrightarrow>
        (trim (msg_text m') \<noteq> [] \<or> msg_image m' \<noteq> [])
        \<and> trim (msg_text m') = msg_text m'
        \<and> req_senderId req \<noteq> req_receiverId req
        \<and> out_db (send_route lib env users db reg req) = db @ [m'])"
proof -
  have "\<exists>e. sendMessage users db newId now s r c = (Inl e, db)"
    if "\<not> truthy (content_text c) \<and> \<not> truthy (content_image c)"
    using sendMessage_rejects_empty[OF that] by blast
  moreover have "\<exists>e. sendMessage users db newId now s s c = (Inl e, db)"
    by (rule sendMessage_rejects_self)
  moreover have "s \<noteq> r
        \<and> (truthy (content_text c) \<or> truthy (content_image c))
        \<and> (\<exists>u \<in> set users. user_id u = receiverId m)
        \<and> db' = db @ [m]"
    if "sendMessage users db newId now s r c = (Inr m, db')"
    using sendMessage_success[OF that] by auto
  moreover have "(trim (msg_text m') \<noteq> [] \<or> msg_image m' \<noteq> [])
        \<and> trim (msg_text m') = msg_text m'
        \<and> req_senderId req \<noteq> req_receiverId req
        \<and> out_db (send_route lib env users db reg req) = db @ [m']"
    if "out_reply (send_route lib env users db reg req) = Json 201 (BodyMessage m')"
    using that by (rule send_route_persists_valid)
  ultimately show ?thesis by blast
qed

text \<open>
  The amended C6 on the example accounts: an empty content is rejected by
  \<open>sendMessage\<close>, a text message from \<open>id_a\<close> to \<open>id_b\<close> is persisted, the same request
  with a no-break space and blanks around the text, sent through the route, persists the
  trimmed text, and a request with a blank text and no image is answered 400 by the
  route.
\<close>

theorem C6_persisted_message_invariant_witness:
  "(\<not> truthy (content_text \<lparr>content_text = Some [], content_image = None\<rparr>)
     \<and> \<not> truthy (content_image \<lparr>content_text = Some [], content_image = None\<rparr>))
   \<and> (\<exists>e. sendMessage example_accounts [] ''m6'' 50 id_a id_b
              \<lparr>content_text = Some [], content_image = None\<rparr> = (Inl e, []))
   \<and> sendMessage example_accounts [] ''m6'' 50 id_a id_b
              \<lparr>content_text = Some (ascii ''hi''), content_image = None\<rparr>
        = (Inr \<lparr>msg_id = ''m6'', senderId = id_a, receiverId = id_b,
                 msg_text = ascii ''hi'', msg_image = [], createdAt = 50\<rparr>,
           [\<lparr>msg_id = ''m6'', senderId = id_a, receiverId = id_b,
                 msg_text = ascii ''hi'', msg_image = [], createdAt = 50\<rparr>])
   \<and> (\<exists>u \<in> set example_accounts. user_id u = id_b)
   \<and> out_reply (send_route example_validators example_env example_accounts [] []
          \<lparr>req_text = Some (0xA0 # ascii '' hi ''), req_image = None,
             req_receiverId = id_b, req_senderId = id_a\<rparr>)
        = Json 201 (BodyMessage \<lparr>msg_id = ''m6'', senderId = id_a, receiverId = id_b,
                 msg_text = ascii ''hi'', msg_image = [], createdAt = 50\<rparr>)
   \<and> out_db (send_route example_validators example_env example_accounts [] []
          \<lparr>req_text = Some (0xA0 # ascii '' hi ''), req_image = None,
             req_receiverId = id_b, req_senderId = id_a\<rparr>)
        = [\<lparr>msg_id = ''m6'', senderId = id_a, receiverId = id_b,
                 msg_text = ascii ''hi'', msg_image = [], createdAt = 50\<rparr>]
   \<and> send_route example_validators example_env example_accounts [] []
          \<lparr>req_text = Some [0x20, 0xA0, 0x2003], req_image = Some [],
             req_receiverId = id_b, req_senderId = id_a\<rparr>
        = \<lparr>out_reply = Json 400 (BodyText ''Validation failed''), out_db = [],
           out_pushed = [], out_warnings = []\<rparr>"
proof -
  let ?m = "\<lparr>msg_id = ''m6'', senderId = id_a, receiverId = id_b,
                 msg_text = ascii ''hi'', msg_image = [], createdAt = 50\<rparr>"
  let ?req = "\<lparr>req_text = Some (0xA0 # ascii '' hi ''), req_image = None,
             req_receiverId = id_b, req_senderId = id_a\<rparr>"
  have h: "\<not> truthy (content_text \<lparr>content_text = Some [], content_image = None\<rparr>)
     \<and> \<not> truthy (content_image \<lparr>content_text = Some [], content_image = None\<rparr>)"
    by (simp add: truthy_def)
  have e: "sendMessage example_accounts [] ''m6'' 50 id_a id_b
              \<lparr>content_text = Some (ascii ''hi''), content_image = None\<rparr>
        = (Inr ?m, [?m])"
    by code_simp
  have r: "out_reply (send_route example_validators example_env example_accounts [] [] ?req)
        = Json 201 (BodyMessage ?m)"
    by code_simp
  from C6_persisted_message_invariant[of "\<lparr>content_text = Some [], content_image = None\<rparr>"
      example_accounts "[]" "''m6''" 50 id_a id_b] h
  have 1: "\<exists>e. sendMessage example_accounts [] ''m6'' 50 id_a id_b
              \<lparr>content_text = Some [], content_image = None\<rparr> = (Inl e, [])"
    by blast
  from C6_persisted_message_invariant[of "\<lparr>content_text = Some (ascii ''hi''), content_image = None\<rparr>"
      example_accounts "[]" "''m6''" 50 id_a id_b ?m "[?m]"
      example_validators example_env "[]" ?req ?m] e r
  have 2: "(\<exists>u \<in> set example_accounts. user_id u = id_b)
      \<and> out_db (send_route example_validators example_env example_accounts [] [] ?req) = [?m]"
    by simp
  have b: "send_route example_validators example_env example_accounts [] []
          \<lparr>req_text = Some [0x20, 0xA0, 0x2003], req_image = Some [],
             req_receiverId = id_b, req_senderId = id_a\<rparr>
        = \<lparr>out_reply = Json 400 (BodyText ''Validation failed''), out_db = [],
           out_pushed = [], out_warnings = []\<rparr>"
    by code_simp
  from h 1 e 2 r b show ?thesis by blast
qed

text \<open>
  C7. When the content has neither a text nor an image (each is absent or the empty
  string), \<open>sendMessage\<close> ends with the bad-request error
  \<^verbatim>\<open>Message must contain text or image\<close>, the message collection is unchanged, and any
  subsequent \<open>getMessagesBetweenUsers\<close> returns what it returned before the call.
\<close>

theorem C7_empty_content_rejected:
  assumes "\<not> truthy (content_text c)" and "\<not> truthy (content_image c)"
  shows "fst (sendMessage users db newId now x y c)
           = Inl (BadRequestError ''Message must contain text or image'')
       \<and> snd (sendMessage users db newId now x y c) = db
       \<and> getMessagesBetweenUsers (snd (sendMessage users db newId now x y c)) x y opts
           = getMessagesBetweenUsers db x y opts"
  using sendMessage_rejects_empty[of c users db newId now x y] assms by simp

text \<open>
  C7 on the example collections, with the empty text and the empty image of the
  specification's scenario.
\<close>

theorem C7_empty_content_rejected_witness:
  "\<not> truthy (content_text \<lparr>content_text = Some [], content_image = Some []\<rparr>)
   \<and> \<not> truthy (content_image \<lparr>content_text = Some [], content_image = Some []\<rparr>)
   \<and> fst (sendMessage example_users example_messages ''m6'' 50 ''a'' ''b''
              \<lparr>content_text = Some [], content_image = Some []\<rparr>)
        = Inl (BadRequestError ''Message must contain text or image'')
   \<and> snd (sendMessage example_users example_messages ''m6'' 50 ''a'' ''b''
              \<lparr>content_text = Some [], content_image = Some []\<rparr>) = example_messages"
proof -
  have h: "\<not> truthy (content_text \<lparr>content_text = Some [], content_image = Some []\<rparr>)"
    "\<not> truthy (content_image \<lparr>content_text = Some [], content_image = Some []\<rparr>)"
    by (simp_all add: truthy_def)
  from C7_empty_content_rejected[OF h, of example_users example_messages "''m6''" 50 "''a''" "''b''"] h
  show ?thesis by blast
qed

lemma emit_newMessage_cases:
  "(getReceiverSocketId reg rcv = None \<longrightarrow> emit_newMessage env reg rcv m = ([], []))
   \<and> (\<forall>h. getReceiverSocketId reg rcv = Some h \<and> h \<noteq> [] \<longrightarrow>
         (env_emit env h m = None \<longrightarrow> emit_newMessage env reg rcv m = ([(h, m)], []))
         \<and> (\<forall>e. env_emit env h m = Some e \<longrightarrow>
               emit_newMessage env reg rcv m = ([], [(''Socket.IO emit error'', e)])))"
  by (simp add: emit_newMessage_def)

lemma sendMessage_controller_success:
  assumes "handle_image env (req_image req) = Inr url"
    and "sendMessage users db (env_newId env) (env_now env) (req_senderId req) (req_receiverId req)
           \<lparr>content_text = Some (or_empty (req_text req)), content_image = Some url\<rparr> = (Inr m, db')"
  shows "sendMessage_controller env users db reg req
           = \<lparr>out_reply = Json 201 (BodyMessage m), out_db = db',
              out_pushed = fst (emit_newMessage env reg (req_receiverId req) m),
              out_warnings = snd (emit_newMessage env reg (req_receiverId req) m)\<rparr>"
  using assms by (simp add: sendMessage_controller_def split_beta)

text \<open>
  C8. Whenever the controller's call of \<open>sendMessage\<close> succeeds with the persisted message
  \<open>m\<close>, the reply is 201 with \<open>m\<close> and the collection holds \<open>m\<close>, whatever the registry
  holds and whatever the emission does. If the receiver has no registered socket, nothing
  is emitted and nothing is logged. If the receiver has a registered socket \<open>h\<close> (socket
  ids are non-empty strings), \<^verbatim>\<open>newMessage\<close> with the whole message \<open>m\<close> is emitted to
  \<open>h\<close>; and if that emission throws, the error is logged as a warning and nothing else
  changes.
\<close>

theorem C8_push_is_best_effort:
  assumes "handle_image env (req_image req) = Inr url"
    and "sendMessage users db (env_newId env) (env_now env) (req_senderId req) (req_receiverId req)
           \<lparr>content_text = Some (or_empty (req_text req)), content_image = Some url\<rparr> = (Inr m, db')"
  shows "out_reply (sendMessage_controller env users db reg req) = Json 201 (BodyMessage m)
       \<and> out_db (sendMessage_controller env users db reg req) = db'
       \<and> (getReceiverSocketId reg (req_receiverId req) = None \<longrightarrow>
            out_pushed (sendMessage_controller env users db reg req) = []
            \<and> out_warnings (sendMessage_controller env users db reg req) = [])
       \<and> (\<forall>h. getReceiverSocketId reg (req_receiverId req) = Some h \<and> h \<noteq> [] \<longrightarrow>
            (env_emit env h m = None \<longrightarrow>
               out_pushed (sendMessage_controller env users db reg req) = [(h, m)]
               \<and> out_warnings (sendMessage_controller env users db reg req) = [])
            \<and> (\<forall>e. env_emit env h m = Some e \<longrightarrow>
               out_pushed (sendMessage_controller env users db reg req) = []
               \<and> out_warnings (sendMessage_controller env users db reg req)
                    = [(''Socket.IO emit error'', e)]))"
  unfolding sendMessage_controller_success[OF assms]
  using emit_newMessage_cases[of reg "req_receiverId req" env m] by auto

text \<open>
  C8 on the example accounts, with \<open>id_b\<close> registered on socket \<open>h1\<close> and an emission
  that throws: the hypotheses hold, the reply is 201 with the message, nothing is emitted
  and one warning is logged.
\<close>

theorem C8_push_is_best_effort_witness:
  "handle_image failing_env (req_image
       \<lparr>req_text = Some (ascii ''hi''), req_image = None, req_receiverId = id_b, req_senderId = id_a\<rparr>)
     = Inr []
   \<and> sendMessage example_accounts [] (env_newId failing_env) (env_now failing_env) id_a id_b
        \<lparr>content_text = Some (ascii ''hi''), content_image = Some []\<rparr>
      = (Inr \<lparr>msg_id = ''m6'', senderId = id_a, receiverId = id_b,
               msg_text = ascii ''hi'', msg_image = [], createdAt = 50\<rparr>,
         [\<lparr>msg_id = ''m6'', senderId = id_a, receiverId = id_b,
               msg_text = ascii ''hi'', msg_image = [], createdAt = 50\<rparr>])
   \<and> getReceiverSocketId [(id_b, ''h1'')] id_b = Some ''h1''
   \<and> out_reply (sendMessage_controller failing_env example_accounts [] [(id_b, ''h1'')]
        \<lparr>req_text = Some (ascii ''hi''), req_image = None, req_receiverId = id_b, req_senderId = id_a\<rparr>)
      = Json 201 (BodyMessage \<lparr>msg_id = ''m6'', senderId = id_a, receiverId = id_b,
               msg_text = ascii ''hi'', msg_image = [], createdAt = 50\<rparr>)
   \<and> out_pushed (sendMessage_controller failing_env example_accounts [] [(id_b, ''h1'')]
        \<lparr>req_text = Some (ascii ''hi''), req_image = None, req_receiverId = id_b, req_senderId = id_a\<rparr>) = []
   \<and> out_warnings (sendMessage_controller failing_env example_accounts [] [(id_b, ''h1'')]
        \<lparr>req_text = Some (ascii ''hi''), req_image = None, req_receiverId = id_b, req_senderId = id_a\<rparr>)
      = [(''Socket.IO emit error'', ''transport closed'')]"
proof -
  let ?req = "\<lparr>req_text = Some (ascii ''hi''), req_image = None, req_receiverId = id_b, req_senderId = id_a\<rparr>"
  let ?m = "\<lparr>msg_id = ''m6'', senderId = id_a, receiverId = id_b,
               msg_text = ascii ''hi'', msg_image = [], createdAt = 50\<rparr>"
  have h1: "handle_image failing_env (req_image ?req) = Inr []"
    by code_simp
  have h2: "sendMessage example_accounts [] (env_newId failing_env) (env_now failing_env)
        (req_senderId ?req) (req_receiverId ?req)
        \<lparr>content_text = Some (or_empty (req_text ?req)), content_image = Some []\<rparr>
      = (Inr ?m, [?m])"
    by code_simp
  have r: "getReceiverSocketId [(id_b, ''h1'')] id_b = Some ''h1''"
    by (simp add: getReceiverSocketId_def)
  have e: "env_emit failing_env ''h1'' ?m = Some ''transport closed''"
    by (simp add: failing_env_def)
  from C8_push_is_best_effort[OF h1 h2, of "[(id_b, ''h1'')]"] r e
  have "out_reply (sendMessage_controller failing_env example_accounts [] [(id_b, ''h1'')] ?req)
          = Json 201 (BodyMessage ?m)
      \<and> out_pushed (sendMessage_controller failing_env example_accounts [] [(id_b, ''h1'')] ?req) = []
      \<and> out_warnings (sendMessage_controller failing_env example_accounts [] [(id_b, ''h1'')] ?req)
          = [(''Socket.IO emit error'', ''transport closed'')]"
    by simp
  with h1 h2 r show ?thesis by (simp add: or_empty_def)
qed

section \<open>Chat partners: properties\<close>

lemma group_first_new:
  assumes "fst d \<notin> fst ` set acc"
  shows "group_first acc d = acc @ [d]"
proof -
  from assms have "map_of acc (fst d) = None" by (simp add: map_of_eq_None_iff)
  then show ?thesis by (simp add: group_first_def)
qed

lemma group_first_old:
  assumes "fst d \<in> fst ` set acc"
  shows "group_first acc d = acc"
proof -
  from assms have "map_of acc (fst d) \<noteq> None" by (simp add: map_of_eq_None_iff)
  then show ?thesis by (auto simp: group_first_def)
qed

lemma group_first_keys:
  "fst ` set (group_first acc d) = insert (fst d) (fst ` set acc)"
  by (cases "fst d \<in> fst ` set acc") (auto simp: group_first_new group_first_old)

lemma group_first_distinct:
  "distinct (map fst acc) \<Longrightarrow> distinct (map fst (group_first acc d))"
  by (cases "fst d \<in> fst ` set acc") (auto simp: group_first_new group_first_old)

lemma group_first_member:
  "e \<in> set (group_first acc d) \<longleftrightarrow> e \<in> set acc \<or> (e = d \<and> fst d \<notin> fst ` set acc)"
  by (cases "fst d \<in> fst ` set acc") (auto simp: group_first_new group_first_old)

lemma foldl_group_first_distinct:
  "distinct (map fst acc) \<Longrightarrow> distinct (map fst (foldl group_first acc xs))"
  by (induction xs arbitrary: acc) (simp_all add: group_first_distinct)

lemma foldl_group_first_keys:
  "fst ` set (foldl group_first acc xs) = fst ` set acc \<union> fst ` set xs"
  by (induction xs arbitrary: acc) (auto simp: group_first_keys)

text \<open>
  A group of the result either was in the accumulator, or is the first document of the
  scanned list with its key.
\<close>

lemma foldl_group_first_first:
  "e \<in> set (foldl group_first acc (map f xs)) \<Longrightarrow>
     e \<in> set acc
     \<or> (fst e \<notin> fst ` set acc
         \<and> (\<exists>ys x zs. xs = ys @ x # zs \<and> e = f x \<and> fst e \<notin> fst ` f ` set ys))"
proof (induction xs arbitrary: acc)
  case Nil
  then show ?case by simp
next
  case (Cons x xs)
  from Cons.prems have "e \<in> set (foldl group_first (group_first acc (f x)) (map f xs))"
    by simp
  from Cons.IH[OF this] consider
      (old) "e \<in> set (group_first acc (f x))"
    | (new) ys y zs where "fst e \<notin> fst ` set (group_first acc (f x))"
        "xs = ys @ y # zs" "e = f y" "fst e \<notin> fst ` f ` set ys"
    by blast
  then show ?case
  proof cases
    case old
    then have "e \<in> set acc \<or> (e = f x \<and> fst (f x) \<notin> fst ` set acc)"
      by (simp add: group_first_member)
    then show ?thesis
    proof
      assume "e \<in> set acc"
      then show ?thesis by simp
    next
      assume a: "e = f x \<and> fst (f x) \<notin> fst ` set acc"
      then have "x # xs = [] @ x # xs \<and> e = f x \<and> fst e \<notin> fst ` f ` set []" by simp
      with a show ?thesis by blast
    qed
  next
    case new
    from new(1) have k: "fst e \<noteq> fst (f x)" "fst e \<notin> fst ` set acc"
      by (simp_all add: group_first_keys)
    have "x # xs = (x # ys) @ y # zs" using new(2) by simp
    moreover have "fst e \<notin> fst ` f ` set (x # ys)" using k(1) new(4) by auto
    ultimately show ?thesis using k(2) new(3) by blast
  qed
qed

lemma partner_query:
  "(senderId m = u \<or> receiverId m = u) \<and> (if senderId m = u then receiverId m else senderId m) = p
     \<longleftrightarrow> conversation_query u p m"
  by (auto simp: conversation_query_def)

text \<open>Every group holds a most recent message of the user with that partner.\<close>

lemma groups_most_recent:
  assumes "(p, lm) \<in> set (foldl group_first []
             (map (\<lambda>m. (if senderId m = u then receiverId m else senderId m, m))
               (sort_createdAt_desc (filter (\<lambda>m. senderId m = u \<or> receiverId m = u) db))))"
  shows "lm \<in> set db \<and> conversation_query u p lm
         \<and> (\<forall>m \<in> set db. conversation_query u p m \<longrightarrow> createdAt m \<le> createdAt lm)"
proof -
  let ?f = "\<lambda>m. (if senderId m = u then receiverId m else senderId m, m)"
  let ?xs = "sort_createdAt_desc (filter (\<lambda>m. senderId m = u \<or> receiverId m = u) db)"
  from foldl_group_first_first[OF assms] obtain ys x zs
    where xs: "?xs = ys @ x # zs" and e: "(p, lm) = ?f x" and first: "p \<notin> fst ` ?f ` set ys"
    by auto
  from e have lm: "lm = x" and p: "p = (if senderId x = u then receiverId x else senderId x)"
    by simp_all
  have "x \<in> set ?xs" unfolding xs by simp
  then have x: "x \<in> set db" "senderId x = u \<or> receiverId x = u"
    by (simp_all add: set_sort_createdAt_desc)
  with p have q: "conversation_query u p x" using partner_query[of x u p] by simp
  have desc: "sorted_wrt (\<lambda>a b. createdAt b \<le> createdAt a) (ys @ x # zs)"
    using desc_sort_createdAt_desc[of "filter (\<lambda>m. senderId m = u \<or> receiverId m = u) db"]
    unfolding xs .
  have "createdAt m \<le> createdAt x" if m: "m \<in> set db" "conversation_query u p m" for m
  proof -
    from m(2) have mm: "senderId m = u \<or> receiverId m = u"
      and mp: "(if senderId m = u then receiverId m else senderId m) = p"
      using partner_query[of m u p] by simp_all
    with m(1) have "m \<in> set ?xs" by (simp add: set_sort_createdAt_desc)
    then have "m \<in> set ys \<or> m = x \<or> m \<in> set zs" unfolding xs by auto
    moreover have "m \<notin> set ys"
    proof
      assume "m \<in> set ys"
      then have "fst (?f m) \<in> fst ` ?f ` set ys" by blast
      with mp first show False by simp
    qed
    moreover have "createdAt m \<le> createdAt x" if "m \<in> set zs"
      using desc that by (auto simp: sorted_wrt_append)
    ultimately show ?thesis by auto
  qed
  with x(1) q lm show ?thesis by simp
qed

lemma filter_unique_id:
  assumes "distinct (map user_id users)"
  shows "length (filter (\<lambda>u. user_id u = p) users) \<le> 1"
proof (rule ccontr)
  assume "\<not> ?thesis"
  then obtain a b rest where f: "filter (\<lambda>u. user_id u = p) users = a # b # rest"
    by (cases "filter (\<lambda>u. user_id u = p) users" rule: list.exhaust[case_names Nil Cons];
        cases "tl (filter (\<lambda>u. user_id u = p) users)") auto
  have "a \<in> set (filter (\<lambda>u. user_id u = p) users)" "b \<in> set (filter (\<lambda>u. user_id u = p) users)"
    unfolding f by simp_all
  then have "user_id a = user_id b" by simp
  moreover have "distinct (map user_id (filter (\<lambda>u. user_id u = p) users))"
    using assms by (rule distinct_map_filter)
  ultimately show False unfolding f by simp
qed

lemma lookup_unwind_member:
  "(p, lm, u) \<in> set (lookup_unwind users groups)
     \<longleftrightarrow> (p, lm) \<in> set groups \<and> u \<in> set users \<and> user_id u = p"
  by (auto simp: lookup_unwind_def)

lemma lookup_unwind_Cons:
  "lookup_unwind users ((p, lm) # groups)
     = map (\<lambda>u. (p, lm, u)) (filter (\<lambda>u. user_id u = p) users) @ lookup_unwind users groups"
  by (simp add: lookup_unwind_def)

lemma lookup_unwind_distinct:
  assumes "distinct (map user_id users)"
  shows "distinct (map fst groups) \<Longrightarrow> distinct (map fst (lookup_unwind users groups))"
proof (induction groups)
  case Nil
  then show ?case by (simp add: lookup_unwind_def)
next
  case (Cons g groups)
  obtain p lm where g: "g = (p, lm)" by (cases g)
  let ?us = "filter (\<lambda>u. user_id u = p) users"
  have "length ?us \<le> 1" using assms by (rule filter_unique_id)
  then have one: "distinct (map fst (map (\<lambda>u. (p, lm, u)) ?us))"
    by (cases ?us) (auto simp: comp_def)
  have rest: "distinct (map fst (lookup_unwind users groups))"
    using Cons by simp
  have "p \<notin> fst ` set (lookup_unwind users groups)"
  proof
    assume "p \<in> fst ` set (lookup_unwind users groups)"
    then obtain lm' u where "(p, lm', u) \<in> set (lookup_unwind users groups)" by force
    then have "(p, lm') \<in> set groups" by (simp add: lookup_unwind_member)
    then have "p \<in> fst ` set groups" by force
    with Cons.prems g show False by simp
  qed
  then have "set (map fst (map (\<lambda>u. (p, lm, u)) ?us)) \<inter> set (map fst (lookup_unwind users groups)) = {}"
    by auto
  with one rest show ?case unfolding g lookup_unwind_Cons by simp
qed

lemma partner_id_project: "partner_id (project_partner d) = fst d"
  by (cases d) (simp add: project_partner_def)

lemma getChatPartners_set:
  "set (getChatPartners users db u)
     = project_partner ` set (lookup_unwind users (foldl group_first []
         (map (\<lambda>m. (if senderId m = u then receiverId m else senderId m, m))
           (sort_createdAt_desc (filter (\<lambda>m. senderId m = u \<or> receiverId m = u) db)))))"
  by (simp add: getChatPartners_def Let_def)

lemma getChatPartners_ids:
  "map partner_id (getChatPartners users db u)
     = map partner_id (sort_key (\<lambda>p. - createdAt (lastMessage p))
         (map project_partner (lookup_unwind users (foldl group_first []
           (map (\<lambda>m. (if senderId m = u then receiverId m else senderId m, m))
             (sort_createdAt_desc (filter (\<lambda>m. senderId m = u \<or> receiverId m = u) db)))))))"
  by (simp add: getChatPartners_def Let_def)

lemma distinct_map_sort_key:
  "distinct (map f (sort_key k xs)) \<longleftrightarrow> distinct (map f xs)"
  by (simp add: distinct_map)

lemma getChatPartners_distinct:
  assumes "distinct (map user_id users)"
  shows "distinct (map partner_id (getChatPartners users db u))"
proof -
  let ?groups = "foldl group_first []
         (map (\<lambda>m. (if senderId m = u then receiverId m else senderId m, m))
           (sort_createdAt_desc (filter (\<lambda>m. senderId m = u \<or> receiverId m = u) db)))"
  have "distinct (map fst ?groups)" by (rule foldl_group_first_distinct) simp
  then have "distinct (map fst (lookup_unwind users ?groups))"
    by (rule lookup_unwind_distinct[OF assms])
  then have "distinct (map partner_id (map project_partner (lookup_unwind users ?groups)))"
    by (simp add: comp_def partner_id_project)
  then show ?thesis unfolding getChatPartners_ids distinct_map_sort_key .
qed

lemma getChatPartners_entry:
  assumes "e \<in> set (getChatPartners users db u)"
  shows "\<exists>usr \<in> set users. user_id usr = partner_id e \<and> partner_email e = email usr
            \<and> partner_fullName e = fullName usr
            \<and> (partner_id e, lastMessage e) \<in> set (foldl group_first []
                 (map (\<lambda>m. (if senderId m = u then receiverId m else senderId m, m))
                   (sort_createdAt_desc (filter (\<lambda>m. senderId m = u \<or> receiverId m = u) db))))"
proof -
  from assms obtain p lm usr where e: "e = project_partner (p, lm, usr)"
    and m: "(p, lm, usr) \<in> set (lookup_unwind users (foldl group_first []
         (map (\<lambda>m. (if senderId m = u then receiverId m else senderId m, m))
           (sort_createdAt_desc (filter (\<lambda>m. senderId m = u \<or> receiverId m = u) db)))))"
    unfolding getChatPartners_set by auto
  from m show ?thesis unfolding e lookup_unwind_member
    by (auto simp: project_partner_def)
qed

lemma getChatPartners_sorted:
  "sorted_wrt (\<lambda>p q. createdAt (lastMessage q) \<le> createdAt (lastMessage p))
     (getChatPartners users db u)"
proof -
  have "sorted (map (\<lambda>p. - createdAt (lastMessage p)) (getChatPartners users db u))"
    by (simp add: getChatPartners_def Let_def)
  then show ?thesis by (simp add: sorted_map)
qed

lemma getChatPartners_complete:
  assumes "m \<in> set db" and "conversation_query u p m" and "usr \<in> set users" and "user_id usr = p"
  shows "p \<in> partner_id ` set (getChatPartners users db u)"
proof -
  let ?f = "\<lambda>m. (if senderId m = u then receiverId m else senderId m, m)"
  let ?xs = "sort_createdAt_desc (filter (\<lambda>m. senderId m = u \<or> receiverId m = u) db)"
  let ?groups = "foldl group_first [] (map ?f ?xs)"
  from assms(2) have "senderId m = u \<or> receiverId m = u" and mp: "fst (?f m) = p"
    using partner_query[of m u p] by simp_all
  with assms(1) have "m \<in> set ?xs" by (simp add: set_sort_createdAt_desc)
  then have "fst (?f m) \<in> fst ` set (map ?f ?xs)" by force
  then have "p \<in> fst ` set ?groups" unfolding foldl_group_first_keys mp by simp
  then obtain lm where "(p, lm) \<in> set ?groups" by force
  with assms(3,4) have "(p, lm, usr) \<in> set (lookup_unwind users ?groups)"
    by (simp add: lookup_unwind_member)
  then have "project_partner (p, lm, usr) \<in> set (getChatPartners users db u)"
    unfolding getChatPartners_set by (rule imageI)
  then have "partner_id (project_partner (p, lm, usr)) \<in> partner_id ` set (getChatPartners users db u)"
    by (rule imageI)
  then show ?thesis by (simp add: partner_id_project)
qed

text \<open>
  C5. With unique user ids in the user collection, the result of \<open>getChatPartners\<close> has at
  most one entry per partner id; the \<open>lastMessage\<close> of each entry is a stored message
  between the user and that partner, and no stored message between the two is more
  recent; and the entries are in non-increasing order of \<open>lastMessage.createdAt\<close>.
\<close>

theorem C5_partners_unique_recent_sorted:
  assumes "distinct (map user_id users)"
  shows "distinct (map partner_id (getChatPartners users db u))
       \<and> (\<forall>e \<in> set (getChatPartners users db u).
            lastMessage e \<in> set db
            \<and> conversation_query u (partner_id e) (lastMessage e)
            \<and> (\<forall>m \<in> set db. conversation_query u (partner_id e) m
                  \<longrightarrow> createdAt m \<le> createdAt (lastMessage e)))
       \<and> sorted_wrt (\<lambda>p q. createdAt (lastMessage q) \<le> createdAt (lastMessage p))
            (getChatPartners users db u)"
proof -
  have "lastMessage e \<in> set db
        \<and> conversation_query u (partner_id e) (lastMessage e)
        \<and> (\<forall>m \<in> set db. conversation_query u (partner_id e) m
              \<longrightarrow> createdAt m \<le> createdAt (lastMessage e))"
    if "e \<in> set (getChatPartners users db u)" for e
    using getChatPartners_entry[OF that] groups_most_recent[of "partner_id e" "lastMessage e" u db]
    by blast
  then show ?thesis
    using getChatPartners_distinct[OF assms, of db u] getChatPartners_sorted[of users db u]
    by blast
qed

text \<open>
  C5 on the example collections: user \<open>a\<close> has exchanged four messages with \<open>b\<close> and one
  with \<open>c\<close>; the result has one entry for each, \<open>b\<close> first, with the messages \<open>m5\<close> and
  \<open>m3\<close>.
\<close>

theorem C5_partners_unique_recent_sorted_witness:
  "distinct (map user_id example_users)
   \<and> map (\<lambda>e. (partner_id e, msg_id (lastMessage e))) (getChatPartners example_users example_messages ''a'')
       = [(''b'', ''m5''), (''c'', ''m3'')]
   \<and> distinct (map partner_id (getChatPartners example_users example_messages ''a''))
   \<and> sorted_wrt (\<lambda>p q. createdAt (lastMessage q) \<le> createdAt (lastMessage p))
        (getChatPartners example_users example_messages ''a'')"
proof -
  have h: "distinct (map user_id example_users)" by code_simp
  have e: "map (\<lambda>e. (partner_id e, msg_id (lastMessage e))) (getChatPartners example_users example_messages ''a'')
       = [(''b'', ''m5''), (''c'', ''m3'')]" by code_simp
  from C5_partners_unique_recent_sorted[OF h, of example_messages "''a''"] h e
  show ?thesis by blast
qed

text \<open>
  C10. If no user document has the id \<open>p\<close> of a counterpart with whom the user has
  exchanged messages, the result of \<open>getChatPartners\<close> has no entry for \<open>p\<close>. Every entry
  of the result carries the email and the full name of the user document of its partner,
  and every counterpart that does resolve to a user document has an entry.
\<close>

theorem C10_unresolved_partner_omitted:
  assumes "\<exists>m \<in> set db. conversation_query u p m"
    and "\<forall>usr \<in> set users. user_id usr \<noteq> p"
  shows "p \<notin> partner_id ` set (getChatPartners users db u)
       \<and> (\<forall>e \<in> set (getChatPartners users db u).
            \<exists>usr \<in> set users. user_id usr = partner_id e
              \<and> partner_email e = email usr \<and> partner_fullName e = fullName usr)
       \<and> (\<forall>q. (\<exists>m \<in> set db. conversation_query u q m) \<and> (\<exists>usr \<in> set users. user_id usr = q)
              \<longrightarrow> q \<in> partner_id ` set (getChatPartners users db u))"
proof -
  have resolved: "\<exists>usr \<in> set users. user_id usr = partner_id e
              \<and> partner_email e = email usr \<and> partner_fullName e = fullName usr"
    if "e \<in> set (getChatPartners users db u)" for e
    using getChatPartners_entry[OF that] by blast
  have "p \<notin> partner_id ` set (getChatPartners users db u)"
  proof
    assume "p \<in> partner_id ` set (getChatPartners users db u)"
    then obtain e where "e \<in> set (getChatPartners users db u)" "partner_id e = p" by auto
    with resolved[of e] assms(2) show False by auto
  qed
  moreover have "q \<in> partner_id ` set (getChatPartners users db u)"
    if "(\<exists>m \<in> set db. conversation_query u q m) \<and> (\<exists>usr \<in> set users. user_id usr = q)" for q
    using that getChatPartners_complete[of _ db u q _ users] by blast
  ultimately show ?thesis using resolved by blast
qed

text \<open>
  C10 on the example collections without the user document of \<open>c\<close>: user \<open>a\<close> has a
  message with \<open>c\<close>, and the result has the entry of \<open>b\<close> only.
\<close>

theorem C10_unresolved_partner_omitted_witness:
  "(\<exists>m \<in> set example_messages. conversation_query ''a'' ''c'' m)
   \<and> map user_id (butlast example_users) = [''a'', ''b'']
   \<and> ''c'' \<notin> partner_id ` set (getChatPartners (butlast example_users) example_messages ''a'')
   \<and> map partner_id (getChatPartners (butlast example_users) example_messages ''a'') = [''b'']"
proof -
  have h1: "\<exists>m \<in> set example_messages. conversation_query ''a'' ''c'' m" by code_simp
  have ids: "map user_id (butlast example_users) = [''a'', ''b'']" by code_simp
  have h2: "\<forall>usr \<in> set (butlast example_users). user_id usr \<noteq> ''c''"
  proof
    fix usr
    assume "usr \<in> set (butlast example_users)"
    then have "user_id usr \<in> set (map user_id (butlast example_users))" by simp
    then show "user_id usr \<noteq> ''c''" unfolding ids by auto
  qed
  have e: "map partner_id (getChatPartners (butlast example_users) example_messages ''a'') = [''b'']"
    by code_simp
  from C10_unresolved_partner_omitted[OF h1 h2] h1 ids e
  show ?thesis by blast
qed

end
